theory Spec2Isabelle
  imports Main "HOL-Library.Extended_Nat" "HOL-Library.Option_ord"
    "HOL-Library.Product_Lexorder" "HOL-Library.List_Lexorder" "HOL-Library.Char_ord"
begin

section \<open>Strings of the host language\<close>

text \<open>
  A Python \<open>str\<close> is modelled as a \<open>string\<close>. The characters the module itself tests
  or produces (\<open>[\<close>, \<open>]\<close>, \<open>.\<close>, \<open>_\<close>, \<open>%\<close>, digits, ASCII letters) are ASCII, and an ASCII byte
  never occurs inside a multi-byte UTF-8 sequence, so replacing on bytes agrees with
  replacing on code points.
\<close>

text \<open>
  \<open>s.replace(old, new)\<close>: every non-overlapping occurrence of \<open>old\<close>, found from the left,
  is replaced. With an empty \<open>old\<close> Python puts \<open>new\<close> before every character and at the end.
\<close>

function replace :: "string \<Rightarrow> string \<Rightarrow> string \<Rightarrow> string" where
  "replace old new s =
     (if old = [] then new @ concat (map (\<lambda>c. c # new) s)
      else if s = [] then []
      else if take (length old) s = old
        then new @ replace old new (drop (length old) s)
      else hd s # replace old new (tl s))"
  by pat_completeness auto
termination
  by (relation "measure (\<lambda>(old, new, s). length s)") auto

declare replace.simps [simp del]

text \<open>\<open>str(n)\<close> and \<open>"%d" % n\<close> for an integer: decimal digits, a minus sign when negative.\<close>

definition digit_chr :: "nat \<Rightarrow> char" where
  "digit_chr n = ''0123456789'' ! (n mod 10)"

function digits :: "nat \<Rightarrow> string" where
  "digits n = (if n < 10 then [digit_chr n] else digits (n div 10) @ [digit_chr n])"
  by pat_completeness auto
termination
  by (relation "measure (\<lambda>n. n)") auto

declare digits.simps [simp del]

definition str_int :: "int \<Rightarrow> string" where
  "str_int i = (if i < 0 then CHR ''-'' # digits (nat (- i)) else digits (nat i))"

text \<open>
  \<open>"%09d" % i\<close>: the sign, then zeros, then the digits, at least nine characters in all;
  a longer number is not cut.
\<close>

definition fmt_09d :: "int \<Rightarrow> string" where
  "fmt_09d i =
     (let sgn = (if i < 0 then ''-'' else '''');
          ds = digits (nat \<bar>i\<bar>)
      in sgn @ replicate (9 - length sgn - length ds) CHR ''0'' @ ds)"

text \<open>\<open>c.isupper()\<close> and \<open>c.lower()\<close> on one character, for the ASCII letters.\<close>

definition isupper :: "char \<Rightarrow> bool" where
  "isupper c = (of_char c \<in> {65 .. (90 :: nat)})"

definition lower :: "char \<Rightarrow> char" where
  "lower c = (if isupper c then char_of (of_char c + (32 :: nat)) else c)"

text \<open>\<open>camel_case_to_uscore_gen\<close>, with the position \<open>i\<close> of \<open>enumerate\<close> as an argument.\<close>

fun camel_case_to_uscore_gen :: "nat \<Rightarrow> string \<Rightarrow> string" where
  "camel_case_to_uscore_gen i [] = []"
| "camel_case_to_uscore_gen i (s # rest) =
     (if isupper s
        then (if i > 0 then ''_'' else '''') @ [lower s] @ camel_case_to_uscore_gen (Suc i) rest
      else s # camel_case_to_uscore_gen (Suc i) rest)"

definition camel_case_to_uscore :: "string \<Rightarrow> string" where
  "camel_case_to_uscore s = camel_case_to_uscore_gen 0 s"

subsection \<open>\<open>HtmlWidget.selsafe\<close>\<close>

definition selsafe :: "string \<Rightarrow> string" where
  "selsafe s = replace ''.'' ''__'' (replace '']'' '''' (replace ''['' '''' s))"

section \<open>The data the module works on\<close>

subsection \<open>HTML elements and the streaming writer\<close>

text \<open>
  An attribute dictionary is an association list in insertion order; \<open>attrib_set\<close> is
  \<open>d[k] = v\<close>, \<open>attrib_update\<close> is \<open>d.update(e)\<close>, \<open>attrib_del\<close> is \<open>del d[k]\<close> (the one
  use in the module deletes a key it has just set) and \<open>attrib_get\<close> is the lookup.
\<close>

type_synonym attrib = "(string \<times> string) list"

fun attrib_set :: "string \<Rightarrow> string \<Rightarrow> attrib \<Rightarrow> attrib" where
  "attrib_set k v [] = [(k, v)]"
| "attrib_set k v ((k', v') # al) =
     (if k = k' then (k, v) # al else (k', v') # attrib_set k v al)"

definition attrib_update :: "attrib \<Rightarrow> attrib \<Rightarrow> attrib" where
  "attrib_update d e = fold (\<lambda>(k, v). attrib_set k v) e d"

definition attrib_del :: "string \<Rightarrow> attrib \<Rightarrow> attrib" where
  "attrib_del k al = filter (\<lambda>p. fst p \<noteq> k) al"

definition attrib_get :: "string \<Rightarrow> attrib \<Rightarrow> string option" where
  "attrib_get k al = map_of al k"

text \<open>An element as \<open>lxml.builder.E\<close> builds it: tag, attributes, text and children.\<close>

datatype elem = Elem (tag: string) (attrib: attrib) (content: string) (children: "elem list")

definition set_attr :: "string \<Rightarrow> string \<Rightarrow> elem \<Rightarrow> elem" where
  "set_attr k v e = Elem (tag e) (attrib_set k v (attrib e)) (content e) (children e)"

text \<open>
  The writer \<open>parent\<close> is the log of what it was asked to do: \<open>parent.write(elt)\<close>, and the
  \<open>__enter__\<close> and \<open>__exit__\<close> of a context made by \<open>parent.element(tag, attrib)\<close>. A \<open>with\<close>
  block is an \<open>Enter\<close>, the body and an \<open>Exit\<close>, the \<open>Exit\<close> also when the body raises or
  returns.
\<close>

datatype event = Enter string attrib | Exit string attrib | Write elem

subsection \<open>Instances\<close>

text \<open>
  The values handed to the serializers: \<open>None\<close>, booleans, integers, strings, lists,
  objects with named attributes, an instance of \<open>PushBase\<close>, and any other object (with
  its truth value and a name).
\<close>

datatype inst =
    PyNone
  | PyBool bool
  | PyInt int
  | PyStr string
  | PyList "inst list"
  | PyObj "(string \<times> inst) list"
  | PyPush
  | PyOther bool string

text \<open>\<open>getattr(inst, k, None)\<close>\<close>

fun getattr :: "inst \<Rightarrow> string \<Rightarrow> inst" where
  "getattr (PyObj fs) k = (case map_of fs k of None \<Rightarrow> PyNone | Some v \<Rightarrow> v)"
| "getattr _ k = PyNone"

text \<open>\<open>bool(inst)\<close>\<close>

fun truthy :: "inst \<Rightarrow> bool" where
  "truthy PyNone = False"
| "truthy (PyBool b) = b"
| "truthy (PyInt i) = (i \<noteq> 0)"
| "truthy (PyStr s) = (s \<noteq> [])"
| "truthy (PyList xs) = (xs \<noteq> [])"
| "truthy (PyObj fs) = True"
| "truthy PyPush = True"
| "truthy (PyOther b s) = b"

text \<open>\<open>isinstance(inst, PushBase)\<close>\<close>

fun is_PushBase :: "inst \<Rightarrow> bool" where
  "is_PushBase PyPush = True"
| "is_PushBase _ = False"

subsection \<open>Exceptions\<close>

text \<open>
  The exceptions the module can meet. The two \<open>TypeError\<close>s are told apart by where they
  are raised: by \<open><\<close> between \<open>None\<close> and a tuple (or a number) while sorting, and by
  iterating over an object that is not iterable. \<open>AttributeError\<close> is the read of an
  attribute of \<open>None\<close>; \<open>RecursionError\<close> is the interpreter's recursion limit; \<open>Break\<close> is
  the exception a caller throws into a coroutine to end it; \<open>RuntimeError\<close> is what
  Python 3 makes of a \<open>StopIteration\<close> that leaves a generator's body.
\<close>

datatype error =
    TypeError_order
  | TypeError_iter
  | AttributeError
  | KeyError
  | RecursionError
  | Break
  | RuntimeError

subsection \<open>Classes and their attributes\<close>

text \<open>
  The \<open>Tab\<close> and \<open>Fieldset\<close> named tuples. The module compares them with \<open>is\<close>; the field
  \<open>oid\<close> stands for the identity of the object, so that \<open>is\<close> is equality of the records and
  two tuples with equal fields can still be two objects.
\<close>

record tab =
  tab_legend :: "string option"
  tab_attrib :: attrib
  tab_index :: "int option"
  tab_htmlid :: string
  tab_oid :: nat

record fieldset =
  fs_legend :: "string option"
  fs_tag :: string
  fs_attrib :: attrib
  fs_index :: "int option"
  fs_htmlid :: string
  fs_oid :: nat

text \<open>
  What \<open>get_cls_attrs\<close> returns, as far as the module reads it. \<open>max_len\<close> and
  \<open>fraction_digits\<close> are infinite by default; \<open>ge\<close>, \<open>gt\<close>, \<open>le\<close> and \<open>lt\<close> are \<open>None\<close> when they
  equal the default of \<open>Decimal.Attributes\<close> and hold \<open>str\<close> of the bound otherwise.
\<close>

record cls_attrs =
  pattern :: "string option"
  min_occurs :: nat
  max_occurs :: enat
  nullable :: bool
  max_len :: enat
  min_len :: nat
  max_str_len :: nat
  fraction_digits :: enat
  ge :: "string option"
  gt :: "string option"
  le :: "string option"
  lt :: "string option"
  date_format :: "string option"
  exc :: bool
  no_write :: bool
  tab :: "tab option"
  fieldset :: "fieldset option"
  attr_order :: "int option"

text \<open>
  A class: its type name, its attributes, and which entry of \<open>serialization_handlers\<close> it
  resolves to. The members of a complex model are looked up by the type name in the
  schema (see \<open>host\<close>), so a schema can be cyclic. An \<open>Array\<close> class holds its one member.
\<close>

datatype ptype = Unicode | Decimal | Integer | Boolean | Date | Time | DateTime | Duration

datatype cls = Cls (get_type_name: string) (kind: ckind) (attrs: cls_attrs)
  and ckind = Primitive ptype | ComplexModel | Array cls

datatype pyver = Python2 | Python3

text \<open>
  The protocol object and the framework behind it, as far as the module calls them:
  \<open>to_unicode\<close> and \<open>to_string\<close> (the value of an instance as text), \<open>trc\<close> and \<open>trd\<close> (the
  translated label of a class and of a legend, with its default), the default
  \<open>Decimal.Attributes.max_str_len\<close>, \<open>str(10 ** (-n))\<close>, \<open>cls.get_flat_type_info(cls)\<close> by
  type name, the \<open>hier_delim\<close> of the constructor, and the interpreter that runs the module
  (it imports \<open>print_function\<close> from \<open>__future__\<close> and \<open>six\<close>, so both are modelled).
\<close>

record host =
  to_unicode :: "cls \<Rightarrow> inst \<Rightarrow> string option"
  to_string :: "cls \<Rightarrow> inst \<Rightarrow> string"
  trc :: "cls \<Rightarrow> string \<Rightarrow> string"
  trd :: "string option \<Rightarrow> string \<Rightarrow> string"
  default_max_str_len :: nat
  str_pow10_neg :: "nat \<Rightarrow> string"
  get_flat_type_info :: "string \<Rightarrow> (string \<times> cls) list"
  hier_delim :: string
  interp :: pyver

section \<open>\<open>HtmlWidget\<close>: the input element and its label\<close>

definition gen_input_elt_id :: "string \<Rightarrow> int option \<Rightarrow> string" where
  "gen_input_elt_id name array_index =
     (case array_index of
        None \<Rightarrow> selsafe name @ ''_input''
      | Some i \<Rightarrow> selsafe name @ ''_'' @ str_int i @ ''_input'')"

definition gen_input_name :: "string \<Rightarrow> int option \<Rightarrow> string" where
  "gen_input_name name array_index =
     (case array_index of
        None \<Rightarrow> name
      | Some i \<Rightarrow> name @ ''['' @ str_int i @ '']'')"

definition required :: "cls_attrs \<Rightarrow> bool" where
  "required a = (min_occurs a = 1 \<and> \<not> nullable a)"

definition gen_input_attrs_novalue :: "cls \<Rightarrow> string \<Rightarrow> cls_attrs \<Rightarrow> attrib" where
  "gen_input_attrs_novalue c name a =
     (let elt_attrs =
            [(''id'', gen_input_elt_id name None),
             (''name'', gen_input_name name None),
             (''class'', camel_case_to_uscore (get_type_name c)),
             (''type'', ''text'')];
          elt_attrs = (case pattern a of
                         None \<Rightarrow> elt_attrs
                       | Some p \<Rightarrow> attrib_set ''pattern'' p elt_attrs)
      in if required a then attrib_set ''required'' [] elt_attrs else elt_attrs)"

text \<open>
  The test \<open>not (inst is None and isinstance(inst, type))\<close> of \<open>_gen_input_attrs\<close> is always
  true, so \<open>to_unicode\<close> is always asked.
\<close>

definition gen_input_attrs :: "host \<Rightarrow> cls \<Rightarrow> inst \<Rightarrow> string \<Rightarrow> cls_attrs \<Rightarrow> attrib" where
  "gen_input_attrs h c i name a =
     (let elt_attrs = gen_input_attrs_novalue c name a
      in case to_unicode h c i of
           None \<Rightarrow> elt_attrs
         | Some val \<Rightarrow> attrib_set ''value'' val elt_attrs)"

text \<open>\<open>html.fromstring('<input required>')\<close> is an \<open>input\<close> with the one attribute.\<close>

definition gen_input :: "host \<Rightarrow> cls \<Rightarrow> inst \<Rightarrow> string \<Rightarrow> cls_attrs \<Rightarrow> elem" where
  "gen_input h c i name a =
     (let elt_attrs = gen_input_attrs h c i name a
      in if required a
           then Elem ''input''
                  (attrib_update [(''required'', [])] (attrib_del ''required'' elt_attrs)) [] []
         else Elem ''input'' elt_attrs [] [])"

definition gen_input_unicode :: "host \<Rightarrow> cls \<Rightarrow> inst \<Rightarrow> string \<Rightarrow> cls_attrs \<times> elem" where
  "gen_input_unicode h c i name =
     (let a = attrs c;
          elt = set_attr ''type'' ''text'' (gen_input h c i name a);
          elt = (case max_len a of
                   enat n \<Rightarrow> set_attr ''maxlength'' (str_int (int n)) elt
                 | \<infinity> \<Rightarrow> elt);
          elt = (if min_len a > 0
                   then set_attr ''minlength'' (str_int (int (min_len a))) elt else elt)
      in (a, elt))"

text \<open>\<open>_gen_label\<close> reads \<open>input.attrib['id']\<close>, a \<open>KeyError\<close> when there is none.\<close>

definition gen_label :: "host \<Rightarrow> cls \<Rightarrow> string \<Rightarrow> elem \<Rightarrow> error + elem" where
  "gen_label h c name inp =
     (case attrib_get ''id'' (attrib inp) of
        None \<Rightarrow> Inl KeyError
      | Some i \<Rightarrow> Inr (Elem ''label'' [(''for'', i)] (trc h c name) []))"

definition apply_number_constraints :: "host \<Rightarrow> cls_attrs \<Rightarrow> elem \<Rightarrow> error + elem" where
  "apply_number_constraints h a elt =
     (let elt = (if max_str_len a \<noteq> default_max_str_len h
                   then set_attr ''maxlength'' (str_int (int (max_str_len a))) elt else elt)
      in case attrib_get ''type'' (attrib elt) of
           None \<Rightarrow> Inl KeyError
         | Some t \<Rightarrow>
             if t = ''range''
               then (let elt = (case ge a of None \<Rightarrow> elt | Some b \<Rightarrow> set_attr ''min'' b elt);
                         elt = (case gt a of None \<Rightarrow> elt | Some b \<Rightarrow> set_attr ''min'' b elt);
                         elt = (case le a of None \<Rightarrow> elt | Some b \<Rightarrow> set_attr ''max'' b elt);
                         elt = (case lt a of None \<Rightarrow> elt | Some b \<Rightarrow> set_attr ''max'' b elt)
                     in Inr elt)
             else Inr elt)"

definition idiv :: "elem list \<Rightarrow> elem" where
  "idiv args = Elem ''div'' [(''class'', ''label-input-wrapper'')] [] args"

section \<open>\<open>HtmlForm\<close>: the serializers of the primitive types\<close>

text \<open>
  Each serializer returns what it writes to \<open>parent\<close>, or the exception it raises. The
  list \<open>ctx.protocol.assets\<close> that the date and time serializers extend is not part of the
  output and is left out.
\<close>

definition unicode_to_parent :: "host \<Rightarrow> cls \<Rightarrow> inst \<Rightarrow> string \<Rightarrow> error + event list" where
  "unicode_to_parent h c i name =
     (let (a, elt) = gen_input_unicode h c i name
      in case gen_label h c name elt of
           Inl e \<Rightarrow> Inl e
         | Inr l \<Rightarrow> Inr [Write (idiv [l, elt])])"

definition decimal_to_parent :: "host \<Rightarrow> cls \<Rightarrow> inst \<Rightarrow> string \<Rightarrow> error + event list" where
  "decimal_to_parent h c i name =
     (let a = attrs c;
          elt = set_attr ''type'' ''number'' (gen_input h c i name a);
          elt = (case fraction_digits a of
                   \<infinity> \<Rightarrow> set_attr ''step'' ''any'' elt
                 | enat n \<Rightarrow> set_attr ''step'' (str_pow10_neg h n) elt)
      in case apply_number_constraints h a elt of
           Inl e \<Rightarrow> Inl e
         | Inr elt \<Rightarrow>
             (case gen_label h c name elt of
                Inl e \<Rightarrow> Inl e
              | Inr l \<Rightarrow> Inr [Write (idiv [l, elt])]))"

definition boolean_to_parent :: "host \<Rightarrow> cls \<Rightarrow> inst \<Rightarrow> string \<Rightarrow> error + event list" where
  "boolean_to_parent h c i name =
     (let a = attrs c;
          elt = gen_input h c i name a;
          elt = Elem (tag elt)
                  (attrib_update (attrib elt) [(''type'', ''checkbox''), (''value'', ''true'')])
                  (content elt) (children elt);
          elt = (if truthy i then set_attr ''checked'' [] elt else elt)
      in case gen_label h c name elt of
           Inl e \<Rightarrow> Inl e
         | Inr l \<Rightarrow> Inr [Write (idiv [elt, l])])"

text \<open>
  The lines of script. \<open>"..." % kwargs\<close> fills \<open>%(field_name)s\<close>, \<open>%(format)s\<close> and
  \<open>%(value)s\<close>; the templates hold no other \<open>%\<close>, so the filled line is the concatenation.
  \<open>sq\<close> is the single quote.
\<close>

definition sq :: string where
  "sq = [CHR 0x27]"

definition picker_init :: "string \<Rightarrow> string \<Rightarrow> string" where
  "picker_init picker field_name = ''$('' @ sq @ ''#'' @ field_name @ sq @ '').'' @ picker @ ''();''"

definition picker_option :: "string \<Rightarrow> string \<Rightarrow> string \<Rightarrow> string \<Rightarrow> string" where
  "picker_option picker opt field_name fmt =
     ''$('' @ sq @ ''#'' @ field_name @ sq @ '').'' @ picker @ ''('' @ sq @ ''option'' @ sq
       @ '', '' @ sq @ opt @ sq @ '', '' @ sq @ fmt @ sq @ '');''"

definition picker_setDate :: "string \<Rightarrow> string \<Rightarrow> string \<Rightarrow> string" where
  "picker_setDate picker field_name val =
     ''$('' @ sq @ ''#'' @ field_name @ sq @ '').'' @ picker @ ''('' @ sq @ ''setDate'' @ sq
       @ '', '' @ sq @ val @ sq @ '');''"

fun join :: "string \<Rightarrow> string list \<Rightarrow> string" where
  "join sep [] = []"
| "join sep [x] = x"
| "join sep (x # y # ys) = x @ sep @ join sep (y # ys)"

text \<open>\<open>_format_js\<close>, given the lines already filled.\<close>

definition format_js :: "string list \<Rightarrow> elem" where
  "format_js lines =
     Elem ''script'' [(''type'', ''text/javascript'')]
       ([CHR 0x0A] @ ''$(function(){'' @ [CHR 0x0A, CHR 0x09]
          @ join [CHR 0x0A, CHR 0x09] lines @ [CHR 0x0A] @ ''});'') []"

definition date_data_format :: "cls_attrs \<Rightarrow> string" where
  "date_data_format a =
     (case date_format a of
        None \<Rightarrow> ''yy-mm-dd''
      | Some f \<Rightarrow> replace ''%d'' ''dd'' (replace ''%m'' ''mm'' (replace ''%Y'' ''yy'' f)))"

definition time_data_format :: "cls_attrs \<Rightarrow> string" where
  "time_data_format a =
     (case date_format a of
        None \<Rightarrow> ''HH:MM:SS''
      | Some f \<Rightarrow> replace ''%S'' ''SS'' (replace ''%M'' ''MM'' (replace ''%H'' ''HH'' f)))"

definition datetime_data_format :: "cls_attrs \<Rightarrow> string" where
  "datetime_data_format a =
     (case date_format a of
        None \<Rightarrow> ''yy-mm-dd HH:MM:SS''
      | Some f \<Rightarrow>
          replace ''%S'' ''SS'' (replace ''%M'' ''MM'' (replace ''%H'' ''HH''
            (replace ''%d'' ''dd'' (replace ''%m'' ''mm'' (replace ''%Y'' ''yy'' f))))))"

text \<open>
  The three serializers differ in the picker, the option they set, the format and in the
  instance they hand to \<open>_gen_input\<close> (\<open>datetime_to_parent\<close> hands \<open>None\<close>).
\<close>

definition picker_to_parent ::
  "string \<Rightarrow> string \<Rightarrow> string \<Rightarrow> host \<Rightarrow> cls \<Rightarrow> inst \<Rightarrow> inst \<Rightarrow> string \<Rightarrow> error + event list" where
  "picker_to_parent picker opt data_format h c input_inst i name =
     (let a = attrs c;
          elt = set_attr ''type'' ''text'' (gen_input h c input_inst name a)
      in case attrib_get ''id'' (attrib elt) of
           None \<Rightarrow> Inl KeyError
         | Some field_name \<Rightarrow>
             (let code = [picker_init picker field_name,
                          picker_option picker opt field_name data_format];
                  script = (if i = PyNone then format_js code
                            else format_js
                                   (code @ [picker_setDate picker field_name (to_string h c i)]))
              in case gen_label h c name elt of
                   Inl e \<Rightarrow> Inl e
                 | Inr l \<Rightarrow> Inr [Write (idiv [l, elt, script])]))"

definition date_to_parent :: "host \<Rightarrow> cls \<Rightarrow> inst \<Rightarrow> string \<Rightarrow> error + event list" where
  "date_to_parent h c i name =
     picker_to_parent ''datepicker'' ''dateFormat'' (date_data_format (attrs c)) h c i i name"

definition time_to_parent :: "host \<Rightarrow> cls \<Rightarrow> inst \<Rightarrow> string \<Rightarrow> error + event list" where
  "time_to_parent h c i name =
     picker_to_parent ''timepicker'' ''timeFormat'' (time_data_format (attrs c)) h c i i name"

definition datetime_to_parent :: "host \<Rightarrow> cls \<Rightarrow> inst \<Rightarrow> string \<Rightarrow> error + event list" where
  "datetime_to_parent h c i name =
     picker_to_parent ''datetimepicker'' ''DateTimeFormat'' (datetime_data_format (attrs c))
       h c PyNone i name"

definition integer_to_parent :: "host \<Rightarrow> cls \<Rightarrow> inst \<Rightarrow> string \<Rightarrow> error + event list" where
  "integer_to_parent h c i name =
     (let a = attrs c;
          elt = set_attr ''type'' ''number'' (gen_input h c i name a)
      in case apply_number_constraints h a elt of
           Inl e \<Rightarrow> Inl e
         | Inr elt \<Rightarrow>
             (case gen_label h c name elt of
                Inl e \<Rightarrow> Inl e
              | Inr l \<Rightarrow> Inr [Write (idiv [l, elt])]))"

definition duration_to_parent :: "host \<Rightarrow> cls \<Rightarrow> inst \<Rightarrow> string \<Rightarrow> error + event list" where
  "duration_to_parent h c i name =
     (let a = attrs c;
          elt = gen_input h c i name a
      in case gen_label h c name elt of
           Inl e \<Rightarrow> Inl e
         | Inr l \<Rightarrow> Inr [Write (idiv [l, elt])])"

text \<open>The entries of \<open>serialization_handlers\<close> for the primitive types.\<close>

fun primitive_to_parent :: "ptype \<Rightarrow> host \<Rightarrow> cls \<Rightarrow> inst \<Rightarrow> string \<Rightarrow> error + event list" where
  "primitive_to_parent Unicode = unicode_to_parent"
| "primitive_to_parent Decimal = decimal_to_parent"
| "primitive_to_parent Integer = integer_to_parent"
| "primitive_to_parent Boolean = boolean_to_parent"
| "primitive_to_parent Date = date_to_parent"
| "primitive_to_parent Time = time_to_parent"
| "primitive_to_parent DateTime = datetime_to_parent"
| "primitive_to_parent Duration = duration_to_parent"

section \<open>\<open>HtmlForm\<close>: complex models and arrays\<close>

subsection \<open>Ordering the members\<close>

text \<open>
  \<open>_Tform_key\<close>: the key of a member \<open>(k, v)\<close> is the tuple of the tab's \<open>(index, htmlid)\<close> or
  \<open>None\<close>, the fieldset's \<open>(index, htmlid)\<close> or \<open>None\<close>, the \<open>order\<close> attribute and the name.
\<close>

type_synonym group_key = "(int option \<times> string) option"
type_synonym form_key = "group_key \<times> group_key \<times> int option \<times> string"

definition tab_key :: "tab \<Rightarrow> int option \<times> string" where
  "tab_key t = (tab_index t, tab_htmlid t)"

definition form_key :: "string \<times> cls \<Rightarrow> form_key" where
  "form_key kv =
     (let a = attrs (snd kv)
      in (map_option tab_key (tab a),
          map_option (\<lambda>f. (fs_index f, fs_htmlid f)) (fieldset a),
          attr_order a,
          fst kv))"

text \<open>
  Python compares two tuples at the first position where they differ. Python 2 orders
  \<open>None\<close> before every other value, which is the order of the key types here (\<open>None\<close> before
  \<open>Some\<close>, pairs and strings lexicographically). Python 3 raises \<open>TypeError\<close> when the two
  values at that position are \<open>None\<close> and something else; \<open>lt_defined\<close> says that it does not.
\<close>

definition index_lt_defined :: "int option \<Rightarrow> int option \<Rightarrow> bool" where
  "index_lt_defined x y = (x \<noteq> None \<and> y \<noteq> None)"

definition pair_lt_defined :: "int option \<times> string \<Rightarrow> int option \<times> string \<Rightarrow> bool" where
  "pair_lt_defined x y = (fst x = fst y \<or> index_lt_defined (fst x) (fst y))"

definition group_lt_defined :: "group_key \<Rightarrow> group_key \<Rightarrow> bool" where
  "group_lt_defined x y =
     (case (x, y) of (Some a, Some b) \<Rightarrow> pair_lt_defined a b | _ \<Rightarrow> False)"

definition key_lt_defined :: "form_key \<Rightarrow> form_key \<Rightarrow> bool" where
  "key_lt_defined x y =
     (case (x, y) of
        ((t1, f1, o1, k1), (t2, f2, o2, k2)) \<Rightarrow>
          if t1 \<noteq> t2 then group_lt_defined t1 t2
          else if f1 \<noteq> f2 then group_lt_defined f1 f2
          else if o1 \<noteq> o2 then index_lt_defined o1 o2
          else True)"

text \<open>
  \<open>sorted(xs, key=key)\<close>. The sort is stable. On Python 3 it raises when it compares two
  keys whose order is not defined. With the keys above, two members whose keys cannot be
  compared cannot be told apart through a third one either (a key that compares with one
  of them is on the same side of both), so a sort that finishes has compared them: the
  model raises exactly when such a pair is in the list.
\<close>

definition sorted_py ::
  "pyver \<Rightarrow> ('a \<Rightarrow> 'k::linorder) \<Rightarrow> ('k \<Rightarrow> 'k \<Rightarrow> bool) \<Rightarrow> 'a list \<Rightarrow> error + 'a list" where
  "sorted_py py key lt_defined xs =
     (if py = Python2 \<or> list_all (\<lambda>x. list_all (\<lambda>y. lt_defined (key x) (key y)) xs) xs
        then Inr (sort_key key xs)
      else Inl TypeError_order)"

subsection \<open>Tab headers\<close>

text \<open>
  \<open>_gen_tab_headers\<close>. The dictionary \<open>tabs\<close> holds each tab object of a member that is not
  excluded once; its values are taken in the order of their first insertion.
\<close>

definition tabs_of :: "(string \<times> cls) list \<Rightarrow> tab list" where
  "tabs_of fti =
     rev (remdups (rev (concat (map (\<lambda>(k, v).
        case tab (attrs v) of
          None \<Rightarrow> []
        | Some t \<Rightarrow> if exc (attrs v) then [] else [t]) fti))))"

definition gen_tab_headers :: "host \<Rightarrow> (string \<times> cls) list \<Rightarrow> error + elem" where
  "gen_tab_headers h fti =
     (case sorted_py (interp h) tab_key pair_lt_defined (tabs_of fti) of
        Inl e \<Rightarrow> Inl e
      | Inr ts \<Rightarrow>
          Inr (Elem ''ul'' [] []
                 (map (\<lambda>(i, t).
                         Elem ''li'' [] []
                           [Elem ''a'' [(''href'', ''#'' @ tab_htmlid t)]
                              (trd h (tab_legend t) (''Tab '' @ str_int (int i))) []])
                    (List.enumerate 0 ts))))"

subsection \<open>Suspended coroutines\<close>

text \<open>
  The local variables of \<open>complex_model_to_parent\<close> that track the open groups. A context
  made by \<open>parent.element(tag, attrib)\<close> is the pair of its arguments.
\<close>

record grouping =
  prev_fset :: "fieldset option"
  fset_ctx :: "(string \<times> attrib) option"
  prev_tab :: "tab option"
  tab_ctx :: "(string \<times> attrib) option"
  tabview_ctx :: "(string \<times> attrib) option"
  tabview_id :: "string option"

text \<open>
  A coroutine that waits at a \<open>yield\<close> is its frame: the local variables, and the
  coroutine \<open>ret\<close> it forwards to, if any. \<open>_push_to_parent\<close> waits either at \<open>sv = (yield)\<close>,
  with no \<open>ret\<close>, or at \<open>sv2 = (yield)\<close>; the other two wait only in their forwarding loop.
  The number is the recursion depth left to the frame.
\<close>

record push_frame =
  push_key :: string
  push_cls :: cls
  push_i :: int

record pull_frame =
  pull_key :: string
  pull_cls :: cls
  pull_i :: nat
  pull_rest :: "inst list"

record complex_frame =
  complex_cls :: cls
  complex_inst :: inst
  complex_name :: string
  complex_from_arr :: bool
  complex_rest :: "(string \<times> cls) list"
  complex_grouping :: grouping

datatype gen =
    PushGen nat push_frame "gen option"
  | PullGen nat pull_frame gen
  | ComplexGen nat complex_frame gen

text \<open>
  What a call gives back, beside what it wrote and the new value of \<open>SOME_COUNTER\<close>:
  \<open>None\<close> (also a coroutine that ran to its end when it was started, which the \<open>coroutine\<close>
  decorator turns into \<open>None\<close>), a suspended coroutine, or an exception. For a coroutine
  that is resumed, \<open>Done\<close> is its \<open>StopIteration\<close>.
\<close>

datatype outcome = Done | Susp gen | Raise error

datatype 'a loop = Finished 'a | Suspended gen | Raised error

type_synonym 'a result = "event list \<times> nat \<times> 'a"

subsection \<open>The pieces of \<open>complex_model_to_parent\<close>\<close>

definition exit_ctx :: "(string \<times> attrib) option \<Rightarrow> event list" where
  "exit_ctx c = (case c of None \<Rightarrow> [] | Some (tg, atts) \<Rightarrow> [Exit tg atts])"

text \<open>
  The block under \<open>if not (tab is prev_tab)\<close>. \<open>tab.htmlid\<close> is an \<open>AttributeError\<close> when
  \<open>tab\<close> is \<open>None\<close>. The \<open>print\<close> calls are left out.
\<close>

definition tab_step ::
  "host \<Rightarrow> (string \<times> cls) list \<Rightarrow> cls_attrs \<Rightarrow> grouping \<Rightarrow> nat \<Rightarrow> (error + grouping) result" where
  "tab_step h fti subattr g n =
     (if tab subattr = prev_tab g then ([], n, Inr g)
      else
        let ev1 = exit_ctx (fset_ctx g) @ exit_ctx (tab_ctx g);
            g = g \<lparr> fset_ctx := None, prev_fset := None \<rparr>
        in case (if prev_tab g = None
                   then (let tid = ''tabview'' @ str_int (int n);
                             ctx = (''div'', [(''id'', tid)]);
                             g = g \<lparr> tabview_id := Some tid, tabview_ctx := Some ctx \<rparr>
                         in case gen_tab_headers h fti of
                              Inl e \<Rightarrow> ([Enter ''div'' [(''id'', tid)]], Suc n, Inl e)
                            | Inr hdrs \<Rightarrow> ([Enter ''div'' [(''id'', tid)], Write hdrs], Suc n, Inr g))
                 else ([], n, Inr g)) of
             (ev2, n, Inl e) \<Rightarrow> (ev1 @ ev2, n, Inl e)
           | (ev2, n, Inr g) \<Rightarrow>
               (case tab subattr of
                  None \<Rightarrow> (ev1 @ ev2, n, Inl AttributeError)
                | Some t \<Rightarrow>
                    (let attrib = attrib_update [(''id'', tab_htmlid t)] (tab_attrib t)
                     in (ev1 @ ev2 @ [Enter ''div'' attrib], n,
                         Inr (g \<lparr> tab_ctx := Some (''div'', attrib), prev_tab := Some t \<rparr>)))))"

text \<open>The block under \<open>if not (fset is prev_fset)\<close>; \<open>fset.tag\<close> fails on \<open>None\<close>.\<close>

definition fset_step :: "host \<Rightarrow> string \<Rightarrow> cls_attrs \<Rightarrow> grouping \<Rightarrow> event list \<times> (error + grouping)" where
  "fset_step h k subattr g =
     (if fieldset subattr = prev_fset g then ([], Inr g)
      else
        let ev1 = exit_ctx (fset_ctx g)
        in case fieldset subattr of
             None \<Rightarrow> (ev1, Inl AttributeError)
           | Some f \<Rightarrow>
               (ev1 @ [Enter (fs_tag f) (fs_attrib f),
                       Write (Elem ''legend'' [] (trd h (fs_legend f) k) [])],
                Inr (g \<lparr> fset_ctx := Some (fs_tag f, fs_attrib f), prev_fset := Some f \<rparr>)))"

definition group_step ::
  "host \<Rightarrow> (string \<times> cls) list \<Rightarrow> string \<Rightarrow> cls_attrs \<Rightarrow> grouping \<Rightarrow> nat \<Rightarrow> (error + grouping) result" where
  "group_step h fti k subattr g n =
     (case tab_step h fti subattr g n of
        (ev1, n, Inl e) \<Rightarrow> (ev1, n, Inl e)
      | (ev1, n, Inr g) \<Rightarrow>
          (case fset_step h k subattr g of
             (ev2, r) \<Rightarrow> (ev1 @ ev2, n, r)))"

definition child_key :: "host \<Rightarrow> string \<Rightarrow> string \<Rightarrow> string" where
  "child_key h name k = (if name \<noteq> [] then name @ hier_delim h @ k else k)"

text \<open>What follows the loop over the members.\<close>

definition close_groups :: "grouping \<Rightarrow> event list" where
  "close_groups g =
     exit_ctx (fset_ctx g) @ exit_ctx (tab_ctx g)
     @ (case tabview_ctx g of
          None \<Rightarrow> []
        | Some (tg, atts) \<Rightarrow>
            [Exit tg atts,
             Write (Elem ''script'' [(''type'', ''text/javascript'')]
                      (''$(function(){ $( '' @ [CHR 0x22] @ ''#'' @ (case tabview_id g of None \<Rightarrow> ''None'' | Some t \<Rightarrow> t)
                         @ [CHR 0x22] @ '' ).tabs(); });'') [])])"

definition init_grouping :: grouping where
  "init_grouping =
     \<lparr> prev_fset = None, fset_ctx = None, prev_tab = None, tab_ctx = None,
       tabview_ctx = None, tabview_id = None \<rparr>"

subsection \<open>The pieces of the array renderers\<close>

definition item_div :: "string \<Rightarrow> string \<times> attrib" where
  "item_div key = (''div'', [(''class'', key)])"

definition buttons :: "string \<Rightarrow> event list" where
  "buttons key =
     [Write (Elem ''button'' [(''class'', key @ ''_btn_add''), (''type'', ''button'')] ''+'' []),
      Write (Elem ''button'' [(''class'', key @ ''_btn_del''), (''type'', ''button'')] ''-'' [])]"

text \<open>\<open>_gen_array_js\<close>: the script, with \<open>%(field_name)s\<close> filled in.\<close>

definition array_js_lines :: "string \<Rightarrow> string list" where
  "array_js_lines k =
     (let dq = [CHR 0x22]
      in [[],
          ''$(function() {'',
          ''    var field_name = '' @ dq @ ''.'' @ dq @ '' + '' @ dq @ k @ dq @ '';'',
          [],
          ''    var add = function() {'',
          ''        var f = $($(field_name)[0]).clone();'',
          ''        f.appendTo($(field_name).parent());'',
          ''        f.find('' @ dq @ ''.'' @ k @ ''_btn_add'' @ dq @ '').click(add);'',
          ''        f.find('' @ dq @ ''.'' @ k @ ''_btn_del'' @ dq @ '').click(del);'',
          ''        return false;'',
          ''    };'',
          [],
          ''    var del = function(event) {'',
          ''        if($('' @ sq @ ''#'' @ k @ ''_container'' @ sq @ '').find('' @ sq @ ''.'' @ k
             @ sq @ '').length > 1){'',
          ''            $(this).parent().remove();'',
          ''        }'',
          ''        else{'',
          ''            $(this).parent().children().val('' @ dq @ dq @ '')'',
          ''        }'',
          ''       event.preventDefault();'',
          ''    };'',
          [],
          ''    $('' @ dq @ ''.'' @ k @ ''_btn_add'' @ dq @ '').click(add);'',
          ''    $('' @ dq @ ''.'' @ k @ ''_btn_del'' @ dq @ '').click(del);'',
          ''});''])"

definition gen_array_js :: "string \<Rightarrow> event list" where
  "gen_array_js key =
     [Write (Elem ''script'' [(''type'', ''text/javascript'')]
               (join [CHR 0x0A] (array_js_lines key)) [])]"

definition array_key :: "string \<Rightarrow> int \<Rightarrow> string" where
  "array_key key i = key @ ''['' @ fmt_09d i @ '']''"

text \<open>
  \<open>enumerate(inst)\<close> after \<open>None\<close> was replaced by the empty list: a list gives its
  elements, a string its characters, and the other instances are not iterable.
\<close>

fun py_iter :: "inst \<Rightarrow> error + inst list" where
  "py_iter PyNone = Inr []"
| "py_iter (PyList xs) = Inr xs"
| "py_iter (PyStr s) = Inr (map (\<lambda>c. PyStr [c]) s)"
| "py_iter _ = Inl TypeError_iter"

text \<open>
  \<open>_push_to_parent\<close> when it is started: it enters the first item \<open>div\<close> and waits for the
  first pushed value.
\<close>

definition push_to_parent :: "nat \<Rightarrow> cls \<Rightarrow> string \<Rightarrow> nat \<Rightarrow> outcome result" where
  "push_to_parent d c name n =
     (let key = selsafe name
      in ([Enter (fst (item_div key)) (snd (item_div key))], n,
          Susp (PushGen d \<lparr> push_key = key, push_cls = c, push_i = - 1 \<rparr> None)))"

subsection \<open>The tree walk\<close>

text \<open>
  The dispatcher \<open>to_parent\<close> belongs to the framework. It is modelled as far as it picks
  the handler: a class with \<open>max_occurs > 1\<close> that is not already rendered from an array
  (\<open>from_arr\<close>) goes to \<open>array_to_parent\<close>, every other class to its entry of
  \<open>serialization_handlers\<close>; the form sets \<open>use_global_null_handler = False\<close>, so \<open>None\<close> goes
  to the handler as well.

  The handlers call back \<open>self.to_parent\<close> for their children. In the definitions below
  that callee is the argument \<open>tp\<close>, and \<open>to_parent\<close> ties the knot by the recursion depth the
  interpreter has left: every call of \<open>to_parent\<close> uses one level, the children of a handler
  are rendered with one level less, and with none left the call raises. The depth \<open>d\<close> that
  the handlers take is the depth of their children; a suspended coroutine keeps it.
\<close>

type_synonym renderer = "host \<Rightarrow> cls \<Rightarrow> inst \<Rightarrow> string \<Rightarrow> bool \<Rightarrow> nat \<Rightarrow> outcome result"

text \<open>
  The loop of \<open>_pull_to_parent\<close> from index \<open>idx\<close> on. It stops where a child is a suspended
  coroutine: \<open>_pull_to_parent\<close> then waits in its forwarding loop, inside the item \<open>div\<close>.
\<close>

fun pull_items ::
  "renderer \<Rightarrow> nat \<Rightarrow> host \<Rightarrow> string \<Rightarrow> cls \<Rightarrow> nat \<Rightarrow> inst list \<Rightarrow> nat \<Rightarrow> unit loop result" where
  "pull_items tp d h key c idx [] n = ([], n, Finished ())"
| "pull_items tp d h key c idx (subval # rest) n =
     (let btns = (if no_write (attrs c) then [] else buttons key);
          enter = Enter (fst (item_div key)) (snd (item_div key));
          leave = Exit (fst (item_div key)) (snd (item_div key))
      in case tp h c subval (array_key key (int idx)) True n of
           (ev, n', Raise e) \<Rightarrow> (enter # ev @ [leave], n', Raised e)
         | (ev, n', Susp g) \<Rightarrow>
             (enter # ev @ btns, n',
              Suspended (PullGen d \<lparr> pull_key = key, pull_cls = c, pull_i = Suc idx,
                                      pull_rest = rest \<rparr> g))
         | (ev, n', Done) \<Rightarrow>
             (case pull_items tp d h key c (Suc idx) rest n' of
                (ev2, n'', r) \<Rightarrow> (enter # ev @ btns @ [leave] @ ev2, n'', r)))"

text \<open>What follows the loop of \<open>_pull_to_parent\<close>.\<close>

definition pull_finish :: "string \<Rightarrow> cls \<Rightarrow> unit loop result \<Rightarrow> outcome result" where
  "pull_finish key c r =
     (case r of
        (ev, n', Finished u) \<Rightarrow>
          (ev @ (if no_write (attrs c) then [] else gen_array_js key), n', Done)
      | (ev, n', Suspended g) \<Rightarrow> (ev, n', Susp g)
      | (ev, n', Raised e) \<Rightarrow> (ev, n', Raise e))"

definition pull_to_parent ::
  "renderer \<Rightarrow> nat \<Rightarrow> host \<Rightarrow> cls \<Rightarrow> inst \<Rightarrow> string \<Rightarrow> nat \<Rightarrow> outcome result" where
  "pull_to_parent tp d h c i name n =
     (let key = selsafe name
      in case py_iter i of
           Inl e \<Rightarrow> ([], n, Raise e)
         | Inr xs \<Rightarrow> pull_finish key c (pull_items tp d h key c 0 xs n))"

text \<open>
  \<open>array_to_parent\<close> leaves its \<open>with\<close> block when it returns, also when what it returns is
  a suspended coroutine.
\<close>

definition array_to_parent ::
  "renderer \<Rightarrow> nat \<Rightarrow> host \<Rightarrow> cls \<Rightarrow> inst \<Rightarrow> string \<Rightarrow> nat \<Rightarrow> outcome result" where
  "array_to_parent tp d h c i name n =
     (let key = selsafe name;
          ctx = [(''id'', key @ ''_container''), (''class'', ''array'')]
      in case (if is_PushBase i then push_to_parent d c name n
               else pull_to_parent tp d h c i name n) of
           (ev, n', r) \<Rightarrow> (Enter ''div'' ctx # ev @ [Exit ''div'' ctx], n', r))"

text \<open>
  The loop of \<open>complex_model_to_parent\<close> over the sorted members, from the grouping \<open>g\<close> on.
\<close>

fun complex_fields ::
  "renderer \<Rightarrow> nat \<Rightarrow> host \<Rightarrow> cls \<Rightarrow> inst \<Rightarrow> string \<Rightarrow> bool \<Rightarrow> (string \<times> cls) list \<Rightarrow> grouping
     \<Rightarrow> nat \<Rightarrow> grouping loop result" where
  "complex_fields tp d h c i name from_arr [] g n = ([], n, Finished g)"
| "complex_fields tp d h c i name from_arr (kv # rest) g n =
     (let k = fst kv; v = snd kv; subattr = attrs v
      in if exc subattr then complex_fields tp d h c i name from_arr rest g n
         else case group_step h (get_flat_type_info h (get_type_name c)) k subattr g n of
                (ev1, n1, Inl e) \<Rightarrow> (ev1, n1, Raised e)
              | (ev1, n1, Inr g1) \<Rightarrow>
                  (case tp h v (getattr i k) (child_key h name k) from_arr n1 of
                     (ev2, n2, Raise e) \<Rightarrow> (ev1 @ ev2, n2, Raised e)
                   | (ev2, n2, Susp gen) \<Rightarrow>
                       (ev1 @ ev2, n2,
                        Suspended (ComplexGen d
                          \<lparr> complex_cls = c, complex_inst = i, complex_name = name,
                            complex_from_arr = from_arr, complex_rest = rest,
                            complex_grouping = g1 \<rparr> gen))
                   | (ev2, n2, Done) \<Rightarrow>
                       (case complex_fields tp d h c i name from_arr rest g1 n2 of
                          (ev3, n3, r) \<Rightarrow> (ev1 @ ev2 @ ev3, n3, r))))"

text \<open>What follows the loop, and the end of the outer \<open>with\<close> block.\<close>

definition complex_finish :: "grouping loop result \<Rightarrow> outcome result" where
  "complex_finish r =
     (case r of
        (ev, n', Finished g) \<Rightarrow> (ev @ close_groups g @ [Exit ''fieldset'' []], n', Done)
      | (ev, n', Suspended gen) \<Rightarrow> (ev, n', Susp gen)
      | (ev, n', Raised e) \<Rightarrow> (ev @ [Exit ''fieldset'' []], n', Raise e))"

definition complex_model_to_parent ::
  "renderer \<Rightarrow> nat \<Rightarrow> host \<Rightarrow> cls \<Rightarrow> inst \<Rightarrow> string \<Rightarrow> bool \<Rightarrow> nat \<Rightarrow> outcome result" where
  "complex_model_to_parent tp d h c i name from_arr n =
     (let fti = get_flat_type_info h (get_type_name c);
          name = (if name = get_type_name c then [] else name);
          opening = [Enter ''fieldset'' [], Write (Elem ''legend'' [] (get_type_name c) [])]
      in case sorted_py (interp h) form_key key_lt_defined fti of
           Inl e \<Rightarrow> (opening @ [Exit ''fieldset'' []], n, Raise e)
         | Inr members \<Rightarrow>
             (case complex_finish
                     (complex_fields tp d h c i name from_arr members init_grouping n) of
                (ev, r) \<Rightarrow> (opening @ ev, r)))"

text \<open>
  The handler of a class; \<open>array_type_to_parent\<close> is the case \<open>Array v\<close>, which hands the one
  member back to \<open>to_parent\<close>.
\<close>

definition dispatch :: "renderer \<Rightarrow> nat \<Rightarrow> renderer" where
  "dispatch tp d h c i name from_arr n =
     (if \<not> from_arr \<and> max_occurs (attrs c) > 1 then array_to_parent tp d h c i name n
      else case kind c of
             Primitive p \<Rightarrow>
               (case primitive_to_parent p h c i name of
                  Inl e \<Rightarrow> ([], n, Raise e)
                | Inr ev \<Rightarrow> (ev, n, Done))
           | ComplexModel \<Rightarrow> complex_model_to_parent tp d h c i name from_arr n
           | Array v \<Rightarrow> tp h v i name from_arr n)"

primrec to_parent :: "nat \<Rightarrow> renderer" where
  "to_parent 0 = (\<lambda>h c i name from_arr n. ([], n, Raise RecursionError))"
| "to_parent (Suc d) = dispatch (to_parent d) d"

subsection \<open>Resuming a suspended coroutine\<close>

text \<open>
  A \<open>StopIteration\<close> that \<open>ret.send\<close> raises inside a coroutine is not caught there (the
  handlers catch \<open>Break\<close> only): it leaves the \<open>with\<close> blocks and the body. On Python 2 that
  ends the coroutine like a return; on Python 3 it becomes a \<open>RuntimeError\<close>.
\<close>

definition stop_iteration_escapes :: "host \<Rightarrow> outcome" where
  "stop_iteration_escapes h = (if interp h = Python2 then Done else Raise RuntimeError)"

text \<open>
  \<open>gen.send(v)\<close>. A coroutine that waits in its forwarding loop hands the value to \<open>ret\<close> and
  waits again. \<open>_push_to_parent\<close> at \<open>sv = (yield)\<close> renders the value under the key made from
  \<open>i\<close> after \<open>i += 0\<close>; when that gives no coroutine it leaves the item \<open>div\<close>, enters the next
  one and waits again. An exception of \<open>ret.send\<close> leaves the \<open>with\<close> block; when it is a
  \<open>Break\<close> the handler throws it into \<open>ret\<close>, which has ended and raises it again.
\<close>

fun send :: "host \<Rightarrow> gen \<Rightarrow> inst \<Rightarrow> nat \<Rightarrow> outcome result" where
  "send h (PushGen d f None) sv n =
     (let key = push_key f;
          i = push_i f + 0;
          f = f \<lparr> push_i := i \<rparr>;
          enter = Enter (fst (item_div key)) (snd (item_div key));
          leave = Exit (fst (item_div key)) (snd (item_div key))
      in case to_parent d h (push_cls f) sv (array_key key i) True n of
           (ev, n', Done) \<Rightarrow> (ev @ [leave, enter], n', Susp (PushGen d f None))
         | (ev, n', Susp ret) \<Rightarrow> (ev, n', Susp (PushGen d f (Some ret)))
         | (ev, n', Raise e) \<Rightarrow> (ev @ [leave], n', Raise e))"
| "send h (PushGen d f (Some ret)) sv2 n =
     (let leave = Exit (fst (item_div (push_key f))) (snd (item_div (push_key f)))
      in case send h ret sv2 n of
           (ev, n', Susp ret') \<Rightarrow> (ev, n', Susp (PushGen d f (Some ret')))
         | (ev, n', Done) \<Rightarrow> (ev @ [leave], n', stop_iteration_escapes h)
         | (ev, n', Raise e) \<Rightarrow> (ev @ [leave], n', Raise e))"
| "send h (PullGen d f ret) sv2 n =
     (let leave = Exit (fst (item_div (pull_key f))) (snd (item_div (pull_key f)))
      in case send h ret sv2 n of
           (ev, n', Susp ret') \<Rightarrow> (ev, n', Susp (PullGen d f ret'))
         | (ev, n', Done) \<Rightarrow> (ev @ [leave], n', stop_iteration_escapes h)
         | (ev, n', Raise e) \<Rightarrow> (ev @ [leave], n', Raise e))"
| "send h (ComplexGen d f ret) y n =
     (case send h ret y n of
        (ev, n', Susp ret') \<Rightarrow> (ev, n', Susp (ComplexGen d f ret'))
      | (ev, n', Done) \<Rightarrow> (ev @ [Exit ''fieldset'' []], n', stop_iteration_escapes h)
      | (ev, n', Raise e) \<Rightarrow> (ev @ [Exit ''fieldset'' []], n', Raise e))"

text \<open>
  \<open>gen.throw(Break())\<close>. At \<open>sv = (yield)\<close> of \<open>_push_to_parent\<close> nothing catches the \<open>Break\<close>:
  it leaves the item \<open>div\<close> and the coroutine. In a forwarding loop the handler throws the
  \<open>Break\<close> into \<open>ret\<close>; an exception of that call goes on up, and otherwise (\<open>ret\<close> ended,
  or answered with another \<open>yield\<close> and is dropped) the coroutine goes on after the loop:
  \<open>_push_to_parent\<close> writes the buttons and starts the next item, \<open>_pull_to_parent\<close> and
  \<open>complex_model_to_parent\<close> go on with the rest of their \<open>for\<close> loop.
\<close>

fun throw :: "host \<Rightarrow> gen \<Rightarrow> nat \<Rightarrow> outcome result" where
  "throw h (PushGen d f None) n =
     ([Exit (fst (item_div (push_key f))) (snd (item_div (push_key f)))], n, Raise Break)"
| "throw h (PushGen d f (Some ret)) n =
     (let key = push_key f;
          enter = Enter (fst (item_div key)) (snd (item_div key));
          leave = Exit (fst (item_div key)) (snd (item_div key))
      in case throw h ret n of
           (ev, n', Raise e) \<Rightarrow> (ev @ [leave], n', Raise e)
         | (ev, n', r) \<Rightarrow>
             (ev @ (if no_write (attrs (push_cls f)) then [] else buttons key) @ [leave, enter],
              n', Susp (PushGen d f None)))"
| "throw h (PullGen d f ret) n =
     (let key = pull_key f;
          leave = Exit (fst (item_div key)) (snd (item_div key))
      in case throw h ret n of
           (ev, n', Raise e) \<Rightarrow> (ev @ [leave], n', Raise e)
         | (ev, n', r) \<Rightarrow>
             (case pull_finish key (pull_cls f)
                     (pull_items (to_parent d) d h key (pull_cls f) (pull_i f) (pull_rest f) n') of
                (ev2, r2) \<Rightarrow> (ev @ [leave] @ ev2, r2)))"
| "throw h (ComplexGen d f ret) n =
     (case throw h ret n of
        (ev, n', Raise e) \<Rightarrow> (ev @ [Exit ''fieldset'' []], n', Raise e)
      | (ev, n', r) \<Rightarrow>
          (case complex_finish
                  (complex_fields (to_parent d) d h (complex_cls f) (complex_inst f)
                     (complex_name f) (complex_from_arr f) (complex_rest f)
                     (complex_grouping f) n') of
             (ev2, r2) \<Rightarrow> (ev @ ev2, r2)))"

text \<open>A caller's sequence of sends, while the coroutine stays suspended.\<close>

fun send_all :: "host \<Rightarrow> gen \<Rightarrow> inst list \<Rightarrow> nat \<Rightarrow> outcome result" where
  "send_all h g [] n = ([], n, Susp g)"
| "send_all h g (v # vs) n =
     (case send h g v n of
        (ev, n', Susp g') \<Rightarrow> (case send_all h g' vs n' of (ev2, r) \<Rightarrow> (ev @ ev2, r))
      | (ev, n', r) \<Rightarrow> (ev, n', r))"

section \<open>Predicates of the statements, and example inputs\<close>

text \<open>
  What C7 asks of a written element: a \<open>div\<close> of class \<open>label-input-wrapper\<close> with an
  \<open>input\<close> child that has an id and a \<open>label\<close> child whose \<open>for\<close> is that id.
\<close>

definition labelled_input_wrapper :: "elem \<Rightarrow> bool" where
  "labelled_input_wrapper w =
     (tag w = ''div'' \<and> attrib_get ''class'' (attrib w) = Some ''label-input-wrapper''
      \<and> list_ex (\<lambda>inp. tag inp = ''input'' \<and> attrib_get ''id'' (attrib inp) \<noteq> None
            \<and> list_ex (\<lambda>lab. tag lab = ''label''
                  \<and> attrib_get ''for'' (attrib lab) = attrib_get ''id'' (attrib inp))
                 (children w))
           (children w))"

text \<open>
  Example inputs: the default attributes of a field, a host whose \<open>to_unicode\<close> and
  \<open>to_string\<close> give a string instance back, and a date class with a format.
\<close>

definition example_attrs :: cls_attrs where
  "example_attrs =
     \<lparr> pattern = None, min_occurs = 0, max_occurs = 1, nullable = True, max_len = \<infinity>,
       min_len = 0, max_str_len = 1024, fraction_digits = \<infinity>, ge = None, gt = None,
       le = None, lt = None, date_format = None, exc = False, no_write = False, tab = None,
       fieldset = None, attr_order = None \<rparr>"

definition example_host :: "(string \<Rightarrow> (string \<times> cls) list) \<Rightarrow> pyver \<Rightarrow> host" where
  "example_host fti py =
     \<lparr> to_unicode = (\<lambda>c i. case i of PyStr s \<Rightarrow> Some s | _ \<Rightarrow> None),
       to_string = (\<lambda>c i. case i of PyStr s \<Rightarrow> s | _ \<Rightarrow> []),
       trc = (\<lambda>c name. name),
       trd = (\<lambda>legend dflt. case legend of None \<Rightarrow> dflt | Some l \<Rightarrow> l),
       default_max_str_len = 1024,
       str_pow10_neg = (\<lambda>n. if n = 0 then ''1'' else ''0.'' @ replicate (n - 1) CHR ''0'' @ ''1''),
       get_flat_type_info = fti,
       hier_delim = ''.'',
       interp = py \<rparr>"

definition example_date :: cls where
  "example_date = Cls ''Date'' (Primitive Date) (example_attrs \<lparr> date_format := Some ''%d.%m.%Y'' \<rparr>)"

text \<open>
  The number that a string of decimal digits stands for, to say that the index in a key
  is the position of the item.
\<close>

definition digit_val :: "char \<Rightarrow> nat" where
  "digit_val c = of_char c - 48"

definition decimal_val :: "string \<Rightarrow> nat" where
  "decimal_val s = foldl (\<lambda>a c. 10 * a + digit_val c) 0 s"

text \<open>
  Example inputs for the array renderers: a field of strings that can repeat, the
  coroutine of \<open>_push_to_parent\<close> for it as it waits for a pushed value, and what
  \<open>unicode_to_parent\<close> writes for a string instance under a key.
\<close>

definition example_tags :: cls where
  "example_tags = Cls ''Unicode'' (Primitive Unicode) (example_attrs \<lparr> max_occurs := \<infinity> \<rparr>)"

definition example_push :: gen where
  "example_push = PushGen 1 \<lparr> push_key = ''tags'', push_cls = example_tags, push_i = - 1 \<rparr> None"

definition tag_input :: "string \<Rightarrow> string \<Rightarrow> event" where
  "tag_input key val =
     Write (idiv [Elem ''label'' [(''for'', selsafe key @ ''_input'')] key [],
                  Elem ''input'' [(''id'', selsafe key @ ''_input''), (''name'', key),
                     (''class'', ''unicode''), (''type'', ''text''), (''value'', val)] [] []])"

text \<open>
  The log of a writer is well nested when every \<open>Exit\<close> closes the context that was
  entered last and is still open, and nothing stays open: \<open>nesting\<close> runs the log against
  the stack of open contexts, and \<open>balanced\<close> starts and ends with the empty stack. Every
  context of a balanced log is entered once and exited once. \<open>open_groups\<close> are the contexts
  that the local variables of \<open>complex_model_to_parent\<close> hold open, innermost first.
\<close>

fun nesting :: "(string \<times> attrib) list \<Rightarrow> event list \<Rightarrow> (string \<times> attrib) list option" where
  "nesting st [] = Some st"
| "nesting st (Enter t a # evs) = nesting ((t, a) # st) evs"
| "nesting st (Exit t a # evs) =
     (case st of [] \<Rightarrow> None | c # st' \<Rightarrow> if c = (t, a) then nesting st' evs else None)"
| "nesting st (Write e # evs) = nesting st evs"

definition balanced :: "event list \<Rightarrow> bool" where
  "balanced evs = (nesting [] evs = Some [])"

definition open_groups :: "grouping \<Rightarrow> (string \<times> attrib) list" where
  "open_groups g =
     (case fset_ctx g of None \<Rightarrow> [] | Some c \<Rightarrow> [c])
     @ (case tab_ctx g of None \<Rightarrow> [] | Some c \<Rightarrow> [c])
     @ (case tabview_ctx g of None \<Rightarrow> [] | Some c \<Rightarrow> [c])"

text \<open>
  A renderer writes balanced logs when each of its calls that returns \<open>None\<close> has done so.
\<close>

definition writes_balanced :: "renderer \<Rightarrow> bool" where
  "writes_balanced tp =
     (\<forall>h c i name from_arr n ev n'. tp h c i name from_arr n = (ev, n', Done) \<longrightarrow> balanced ev)"

text \<open>
  Example schemas. \<open>Person\<close> mixes members with and without tab and fieldset
  annotations and \<open>Team\<close> has a \<open>Person\<close> as a member; in the cyclic schema, \<open>Node\<close> has a
  member of its own type.
\<close>

definition example_tab1 :: tab where
  "example_tab1 = \<lparr> tab_legend = Some ''Contact'', tab_attrib = [], tab_index = Some 0,
                     tab_htmlid = ''tab0'', tab_oid = 0 \<rparr>"

definition example_tab2 :: tab where
  "example_tab2 = \<lparr> tab_legend = None, tab_attrib = [(''class'', ''wide'')], tab_index = Some 1,
                     tab_htmlid = ''tab1'', tab_oid = 1 \<rparr>"

definition example_fset1 :: fieldset where
  "example_fset1 = \<lparr> fs_legend = Some ''Name'', fs_tag = ''fieldset'', fs_attrib = [],
                      fs_index = Some 0, fs_htmlid = ''fset2'', fs_oid = 2 \<rparr>"

definition example_fset2 :: fieldset where
  "example_fset2 = \<lparr> fs_legend = None, fs_tag = ''fieldset'', fs_attrib = [],
                      fs_index = None, fs_htmlid = ''fset3'', fs_oid = 3 \<rparr>"

definition example_member :: "ptype \<Rightarrow> tab option \<Rightarrow> fieldset option \<Rightarrow> cls" where
  "example_member p t f =
     Cls ''Field'' (Primitive p) (example_attrs \<lparr> tab := t, fieldset := f \<rparr>)"

definition example_schema :: "string \<Rightarrow> (string \<times> cls) list" where
  "example_schema tn =
     (if tn = ''Person''
        then [(''notes'', example_member Unicode (Some example_tab2) None),
              (''phone'', example_member Unicode (Some example_tab1) (Some example_fset2)),
              (''email'', example_member Unicode (Some example_tab1) None),
              (''name'', example_member Unicode None (Some example_fset1)),
              (''age'', example_member Integer None None)]
      else if tn = ''Team''
        then [(''title'', example_member Unicode None None),
              (''lead'', Cls ''Person'' ComplexModel example_attrs)]
      else [])"



definition example_person :: cls where
  "example_person = Cls ''Person'' ComplexModel example_attrs"


text \<open>
  The keys of the members can be sorted: on Python 2 always, on Python 3 when, in every
  model of the schema, any two keys can be compared. \<open>grouping_error\<close> are the two
  exceptions of the grouping logic: the \<open>TypeError\<close> of the sort and the
  \<open>AttributeError\<close> of \<open>tab.htmlid\<close> or \<open>fset.tag\<close> on \<open>None\<close>.
\<close>

definition orderable :: "host \<Rightarrow> bool" where
  "orderable h =
     (interp h = Python2
      \<or> (\<forall>tn. list_all (\<lambda>x. list_all (\<lambda>y. key_lt_defined (form_key x) (form_key y))
                               (get_flat_type_info h tn))
                   (get_flat_type_info h tn)))"

definition grouping_error :: "error \<Rightarrow> bool" where
  "grouping_error e = (e = AttributeError \<or> e = TypeError_order)"

definition no_grouping_error :: "renderer \<Rightarrow> host \<Rightarrow> bool" where
  "no_grouping_error tp h =
     (\<forall>c i name from_arr n e. snd (snd (tp h c i name from_arr n)) = Raise e
        \<longrightarrow> \<not> grouping_error e)"

text \<open>
  The members still to come fit the open groups: after a member with a tab every member
  has a tab, and after a member with a fieldset every member of the same tab has one.
\<close>

definition members_fit :: "grouping \<Rightarrow> (string \<times> cls) list \<Rightarrow> bool" where
  "members_fit g fs =
     ((prev_tab g \<noteq> None \<longrightarrow> (\<forall>kv\<in>set fs. tab (attrs (snd kv)) \<noteq> None))
      \<and> (prev_fset g \<noteq> None \<longrightarrow>
           (\<forall>kv\<in>set fs. tab (attrs (snd kv)) = prev_tab g \<longrightarrow> fieldset (attrs (snd kv)) \<noteq> None)))"







definition example_box_schema :: "string \<Rightarrow> (string \<times> cls) list" where
  "example_box_schema tn =
     (if tn = ''Box''
        then [(''items'', Cls ''Unicode'' (Primitive Unicode)
                 (example_attrs \<lparr> max_occurs := \<infinity>, tab := Some example_tab1 \<rparr>))]
      else [])"

definition example_box :: cls where
  "example_box = Cls ''Box'' ComplexModel example_attrs"

section \<open>Properties of the string functions\<close>

lemma replace_Nil: "old \<noteq> [] \<Longrightarrow> replace old new [] = []"
  by (simp add: replace.simps)

lemma replace_chr_Cons:
  "replace [a] new (c # s) = (if c = a then new @ replace [a] new s else c # replace [a] new s)"
  by (subst replace.simps) simp

lemma replace_chr:
  "replace [a] new s = concat (map (\<lambda>c. if c = a then new else [c]) s)"
  by (induction s) (simp_all add: replace_Nil replace_chr_Cons)

lemma selsafe_concat:
  "selsafe s =
     concat (map (\<lambda>c. if c = CHR ''['' \<or> c = CHR '']'' then []
                        else if c = CHR ''.'' then ''__'' else [c]) s)"
  unfolding selsafe_def replace_chr
  by (induction s) auto

lemma selsafe_set:
  "set (selsafe s) \<subseteq> (set s - {CHR ''['', CHR '']'', CHR ''.''}) \<union> {CHR ''_''}"
  unfolding selsafe_concat by (induction s) auto

lemma selsafe_fixed:
  "CHR ''['' \<notin> set s \<Longrightarrow> CHR '']'' \<notin> set s \<Longrightarrow> CHR ''.'' \<notin> set s \<Longrightarrow> selsafe s = s"
  unfolding selsafe_concat by (induction s) auto

text \<open>
  C9. For every string \<open>s\<close>, \<open>selsafe s\<close> keeps the characters of \<open>s\<close> in order, with each
  bracket dropped and each dot turned into two underscores; so it holds no \<open>[\<close>, no \<open>]\<close>
  and no \<open>.\<close>, and applying \<open>selsafe\<close> again changes nothing.
\<close>

theorem selsafe_safe_idempotent:
  "CHR ''['' \<notin> set (selsafe s) \<and> CHR '']'' \<notin> set (selsafe s) \<and> CHR ''.'' \<notin> set (selsafe s)
   \<and> selsafe s =
       concat (map (\<lambda>c. if c = CHR ''['' \<or> c = CHR '']'' then []
                          else if c = CHR ''.'' then ''__'' else [c]) s)
   \<and> selsafe (selsafe s) = selsafe s"
proof -
  have a: "CHR ''['' \<notin> set (selsafe s)" and b: "CHR '']'' \<notin> set (selsafe s)"
    and c: "CHR ''.'' \<notin> set (selsafe s)"
    using selsafe_set [of s] by auto
  from a b c have "selsafe (selsafe s) = selsafe s" by (rule selsafe_fixed)
  with a b c selsafe_concat [of s] show ?thesis by blast
qed

theorem selsafe_safe_idempotent_witness:
  "selsafe ''a.b[0].c'' = ''a__b0__c'' \<and> selsafe (selsafe ''a.b[0].c'') = selsafe ''a.b[0].c''"
  using selsafe_safe_idempotent [of "''a.b[0].c''"] by (simp add: selsafe_concat)

lemma attrib_get_set:
  "attrib_get k' (attrib_set k v al) = (if k' = k then Some v else attrib_get k' al)"
  unfolding attrib_get_def by (induction al) auto

lemma attrib_get_id_set_attr:
  "k \<noteq> ''id'' \<Longrightarrow> attrib_get ''id'' (attrib (set_attr k v e)) = attrib_get ''id'' (attrib e)"
  by (simp add: set_attr_def attrib_get_set)

lemma tag_set_attr: "tag (set_attr k v e) = tag e"
  by (simp add: set_attr_def)

lemma gen_input_id:
  "attrib_get ''id'' (attrib (gen_input h c i name a)) = Some (selsafe name @ ''_input'')"
  by (simp add: gen_input_def gen_input_attrs_def gen_input_attrs_novalue_def gen_input_elt_id_def
      attrib_get_set attrib_update_def attrib_del_def Let_def attrib_get_def
      split: option.splits)

lemma tag_gen_input: "tag (gen_input h c i name a) = ''input''"
  by (simp add: gen_input_def Let_def)

lemma label_ok:
  "attrib_get ''id'' (attrib elt) = Some fid \<Longrightarrow>
   gen_label h c name elt = Inr (Elem ''label'' [(''for'', fid)] (trc h c name) [])"
  by (simp add: gen_label_def)

lemma wrapperI:
  assumes "tag inp = ''input''" and "attrib_get ''id'' (attrib inp) = Some fid"
    and "lab = Elem ''label'' [(''for'', fid)] t []" and "inp \<in> set kids" and "lab \<in> set kids"
  shows "labelled_input_wrapper (idiv kids)"
proof -
  have "tag lab = ''label'' \<and> attrib_get ''for'' (attrib lab) = attrib_get ''id'' (attrib inp)"
    using assms by (simp add: attrib_get_def)
  with assms(5) have "\<exists>l\<in>set kids. tag l = ''label''
      \<and> attrib_get ''for'' (attrib l) = attrib_get ''id'' (attrib inp)"
    by blast
  with assms(1,2,4) have "\<exists>i\<in>set kids. tag i = ''input'' \<and> attrib_get ''id'' (attrib i) \<noteq> None
      \<and> (\<exists>l\<in>set kids. tag l = ''label''
            \<and> attrib_get ''for'' (attrib l) = attrib_get ''id'' (attrib i))"
    by (intro bexI [of _ inp]) auto
  then show ?thesis
    unfolding labelled_input_wrapper_def list_ex_iff
    by (simp add: idiv_def attrib_get_def)
qed

lemma wrapper_label_first:
  assumes "tag elt = ''input''" and "attrib_get ''id'' (attrib elt) = Some fid"
  shows "labelled_input_wrapper (idiv (Elem ''label'' [(''for'', fid)] t [] # elt # rest))"
  by (rule wrapperI [where t = t, OF assms refl]) simp_all

lemma wrapper_label_second:
  assumes "tag elt = ''input''" and "attrib_get ''id'' (attrib elt) = Some fid"
  shows "labelled_input_wrapper (idiv [elt, Elem ''label'' [(''for'', fid)] t []])"
  by (rule wrapperI [where t = t, OF assms refl]) simp_all

lemma unicode_wrapper:
  "\<exists>w. unicode_to_parent h c i name = Inr [Write w] \<and> labelled_input_wrapper w"
proof -
  obtain a elt where ge: "gen_input_unicode h c i name = (a, elt)" by force
  have t: "tag elt = ''input''" and d: "attrib_get ''id'' (attrib elt) = Some (selsafe name @ ''_input'')"
    using ge by (auto simp: gen_input_unicode_def Let_def tag_set_attr tag_gen_input
        attrib_get_id_set_attr gen_input_id split: enat.splits if_splits)
  show ?thesis
    using ge label_ok [OF d, of h c name] wrapper_label_first [OF t d]
    by (simp add: unicode_to_parent_def)
qed

lemma number_constraints_ok:
  assumes "attrib_get ''type'' (attrib elt) = Some ''number''"
  shows "\<exists>elt'. apply_number_constraints h a elt = Inr elt' \<and> tag elt' = tag elt
           \<and> attrib_get ''id'' (attrib elt') = attrib_get ''id'' (attrib elt)"
  using assms
  by (simp add: apply_number_constraints_def Let_def set_attr_def attrib_get_set)

lemma type_set_attr: "attrib_get ''type'' (attrib (set_attr ''type'' v e)) = Some v"
  by (simp add: set_attr_def attrib_get_set)

lemma type_set_attr_other:
  "k \<noteq> ''type'' \<Longrightarrow> attrib_get ''type'' (attrib (set_attr k v e)) = attrib_get ''type'' (attrib e)"
  by (simp add: set_attr_def attrib_get_set)

lemma decimal_wrapper:
  "\<exists>w. decimal_to_parent h c i name = Inr [Write w] \<and> labelled_input_wrapper w"
proof -
  define elt where "elt = (case fraction_digits (attrs c) of
       \<infinity> \<Rightarrow> set_attr ''step'' ''any'' (set_attr ''type'' ''number'' (gen_input h c i name (attrs c)))
     | enat n \<Rightarrow> set_attr ''step'' (str_pow10_neg h n)
         (set_attr ''type'' ''number'' (gen_input h c i name (attrs c))))"
  have ty: "attrib_get ''type'' (attrib elt) = Some ''number''"
    by (simp add: elt_def type_set_attr type_set_attr_other split: enat.splits)
  have t: "tag elt = ''input''"
    and d: "attrib_get ''id'' (attrib elt) = Some (selsafe name @ ''_input'')"
    by (simp_all add: elt_def tag_set_attr tag_gen_input attrib_get_id_set_attr gen_input_id
        split: enat.splits)
  from number_constraints_ok [OF ty, of h "attrs c"] t d
  obtain elt' where e: "apply_number_constraints h (attrs c) elt = Inr elt'"
    and t': "tag elt' = ''input''"
    and d': "attrib_get ''id'' (attrib elt') = Some (selsafe name @ ''_input'')"
    by auto
  show ?thesis
    using e label_ok [OF d', of h c name] wrapper_label_first [OF t' d']
    by (simp add: decimal_to_parent_def Let_def elt_def [symmetric])
qed

lemma integer_wrapper:
  "\<exists>w. integer_to_parent h c i name = Inr [Write w] \<and> labelled_input_wrapper w"
proof -
  define elt where "elt = set_attr ''type'' ''number'' (gen_input h c i name (attrs c))"
  have ty: "attrib_get ''type'' (attrib elt) = Some ''number''"
    by (simp add: elt_def type_set_attr)
  have t: "tag elt = ''input''"
    and d: "attrib_get ''id'' (attrib elt) = Some (selsafe name @ ''_input'')"
    by (simp_all add: elt_def tag_set_attr tag_gen_input attrib_get_id_set_attr gen_input_id)
  from number_constraints_ok [OF ty, of h "attrs c"] t d
  obtain elt' where e: "apply_number_constraints h (attrs c) elt = Inr elt'"
    and t': "tag elt' = ''input''"
    and d': "attrib_get ''id'' (attrib elt') = Some (selsafe name @ ''_input'')"
    by auto
  show ?thesis
    using e label_ok [OF d', of h c name] wrapper_label_first [OF t' d']
    by (simp add: integer_to_parent_def Let_def elt_def [symmetric])
qed

lemma boolean_wrapper:
  "\<exists>w. boolean_to_parent h c i name = Inr [Write w] \<and> labelled_input_wrapper w"
proof -
  define e0 where "e0 = gen_input h c i name (attrs c)"
  define e1 where "e1 = Elem (tag e0)
      (attrib_update (attrib e0) [(''type'', ''checkbox''), (''value'', ''true'')])
      (content e0) (children e0)"
  define elt where "elt = (if truthy i then set_attr ''checked'' [] e1 else e1)"
  have t: "tag elt = ''input''"
    and d: "attrib_get ''id'' (attrib elt) = Some (selsafe name @ ''_input'')"
    by (simp_all add: elt_def e1_def e0_def tag_set_attr tag_gen_input attrib_get_id_set_attr
        gen_input_id attrib_update_def attrib_get_set)
  show ?thesis
  proof (cases "truthy i")
    case True
    then have "elt = set_attr ''checked'' [] e1" by (simp add: elt_def)
    with True label_ok [OF d, of h c name] wrapper_label_second [OF t d] show ?thesis
      by (simp add: boolean_to_parent_def Let_def e0_def [symmetric] e1_def [symmetric])
  next
    case False
    then have "elt = e1" by (simp add: elt_def)
    with False label_ok [OF d, of h c name] wrapper_label_second [OF t d] show ?thesis
      by (simp add: boolean_to_parent_def Let_def e0_def [symmetric] e1_def [symmetric])
  qed
qed

lemma duration_wrapper:
  "\<exists>w. duration_to_parent h c i name = Inr [Write w] \<and> labelled_input_wrapper w"
proof -
  define elt where "elt = gen_input h c i name (attrs c)"
  have t: "tag elt = ''input''"
    and d: "attrib_get ''id'' (attrib elt) = Some (selsafe name @ ''_input'')"
    by (simp_all add: elt_def tag_gen_input gen_input_id)
  show ?thesis
    using label_ok [OF d, of h c name] wrapper_label_first [OF t d]
    by (simp add: duration_to_parent_def Let_def elt_def [symmetric])
qed

lemma picker_to_parent_eq:
  "\<exists>lab inp.
     picker_to_parent picker opt fmt h c ii i name =
       Inr [Write (idiv [lab, inp,
              format_js ([picker_init picker (selsafe name @ ''_input''),
                          picker_option picker opt (selsafe name @ ''_input'') fmt]
                         @ (if i = PyNone then []
                            else [picker_setDate picker (selsafe name @ ''_input'')
                                    (to_string h c i)]))])]
     \<and> tag inp = ''input'' \<and> attrib_get ''id'' (attrib inp) = Some (selsafe name @ ''_input'')
     \<and> lab = Elem ''label'' [(''for'', selsafe name @ ''_input'')] (trc h c name) []"
proof -
  define elt where "elt = set_attr ''type'' ''text'' (gen_input h c ii name (attrs c))"
  have t: "tag elt = ''input''"
    and d: "attrib_get ''id'' (attrib elt) = Some (selsafe name @ ''_input'')"
    by (simp_all add: elt_def tag_set_attr tag_gen_input attrib_get_id_set_attr gen_input_id)
  let ?lab = "Elem ''label'' [(''for'', selsafe name @ ''_input'')] (trc h c name) []"
  have "picker_to_parent picker opt fmt h c ii i name =
       Inr [Write (idiv [?lab, elt,
              format_js ([picker_init picker (selsafe name @ ''_input''),
                          picker_option picker opt (selsafe name @ ''_input'') fmt]
                         @ (if i = PyNone then []
                            else [picker_setDate picker (selsafe name @ ''_input'')
                                    (to_string h c i)]))])]"
    using label_ok [OF d, of h c name] d
    by (simp add: picker_to_parent_def Let_def elt_def [symmetric])
  with t d show ?thesis by blast
qed

lemma picker_wrapper:
  "\<exists>w. picker_to_parent picker opt fmt h c ii i name = Inr [Write w] \<and> labelled_input_wrapper w"
proof -
  from picker_to_parent_eq [of picker opt fmt h c ii i name]
  obtain lab inp s where
    "picker_to_parent picker opt fmt h c ii i name = Inr [Write (idiv [lab, inp, s])]"
    and "tag inp = ''input''"
    and "attrib_get ''id'' (attrib inp) = Some (selsafe name @ ''_input'')"
    and "lab = Elem ''label'' [(''for'', selsafe name @ ''_input'')] (trc h c name) []"
    by blast
  then show ?thesis
    using wrapper_label_first [of inp "selsafe name @ ''_input''" "trc h c name" "[s]"]
    by simp
qed

lemma primitive_writes_wrapper:
  "\<exists>w. primitive_to_parent p h c i name = Inr [Write w] \<and> labelled_input_wrapper w"
  by (cases p)
    (simp_all add: unicode_wrapper decimal_wrapper integer_wrapper boolean_wrapper
      duration_wrapper picker_wrapper date_to_parent_def time_to_parent_def
      datetime_to_parent_def)

text \<open>
  C7. For each of the eight primitive types, the serializer raises nothing and writes one
  element: a \<open>div\<close> of class \<open>label-input-wrapper\<close> that holds an \<open>input\<close> and a \<open>label\<close> whose
  \<open>for\<close> attribute is the id of the \<open>input\<close>.
\<close>

theorem primitive_label_input_wrapper:
  "\<exists>w. primitive_to_parent p h c i name = Inr [Write w] \<and> labelled_input_wrapper w"
  by (rule primitive_writes_wrapper)

theorem primitive_label_input_wrapper_witness:
  "\<exists>w. primitive_to_parent Boolean (example_host (\<lambda>n. []) Python3)
          (Cls ''Boolean'' (Primitive Boolean) example_attrs) (PyBool True) ''agree''
        = Inr [Write w] \<and> labelled_input_wrapper w"
  by (rule primitive_label_input_wrapper)

lemma picker_to_parent_written:
  "\<exists>lab inp.
     picker_to_parent picker opt fmt h c ii i name =
       Inr [Write (Elem ''div'' [(''class'', ''label-input-wrapper'')] []
              [lab, inp,
               Elem ''script'' [(''type'', ''text/javascript'')]
                 ([CHR 0x0A] @ ''$(function(){'' @ [CHR 0x0A, CHR 0x09]
                  @ ''$('' @ [CHR 0x27] @ ''#'' @ (selsafe name @ ''_input'') @ [CHR 0x27] @ '').''
                      @ picker @ ''();'' @ [CHR 0x0A, CHR 0x09]
                  @ ''$('' @ [CHR 0x27] @ ''#'' @ (selsafe name @ ''_input'') @ [CHR 0x27] @ '').''
                      @ picker @ ''('' @ [CHR 0x27] @ ''option'' @ [CHR 0x27] @ '', ''
                      @ [CHR 0x27] @ opt @ [CHR 0x27] @ '', '' @ [CHR 0x27] @ fmt @ [CHR 0x27]
                      @ '');''
                  @ (if i = PyNone then []
                     else [CHR 0x0A, CHR 0x09]
                          @ ''$('' @ [CHR 0x27] @ ''#'' @ (selsafe name @ ''_input'') @ [CHR 0x27]
                          @ '').'' @ picker @ ''('' @ [CHR 0x27] @ ''setDate'' @ [CHR 0x27]
                          @ '', '' @ [CHR 0x27] @ to_string h c i @ [CHR 0x27] @ '');'')
                  @ [CHR 0x0A] @ ''});'') []])]
     \<and> tag lab = ''label'' \<and> attrib_get ''for'' (attrib lab) = Some (selsafe name @ ''_input'')
     \<and> tag inp = ''input'' \<and> attrib_get ''id'' (attrib inp) = Some (selsafe name @ ''_input'')"
proof -
  from picker_to_parent_eq [of picker opt fmt h c ii i name] obtain lab inp where
    e: "picker_to_parent picker opt fmt h c ii i name =
       Inr [Write (idiv [lab, inp,
              format_js ([picker_init picker (selsafe name @ ''_input''),
                          picker_option picker opt (selsafe name @ ''_input'') fmt]
                         @ (if i = PyNone then []
                            else [picker_setDate picker (selsafe name @ ''_input'')
                                    (to_string h c i)]))])]"
    and t: "tag inp = ''input''"
    and d: "attrib_get ''id'' (attrib inp) = Some (selsafe name @ ''_input'')"
    and l: "lab = Elem ''label'' [(''for'', selsafe name @ ''_input'')] (trc h c name) []"
    by blast
  from l have l1: "tag lab = ''label''"
    and l2: "attrib_get ''for'' (attrib lab) = Some (selsafe name @ ''_input'')"
    by (simp_all add: attrib_get_def)
  have "picker_to_parent picker opt fmt h c ii i name =
       Inr [Write (Elem ''div'' [(''class'', ''label-input-wrapper'')] []
              [lab, inp,
               Elem ''script'' [(''type'', ''text/javascript'')]
                 ([CHR 0x0A] @ ''$(function(){'' @ [CHR 0x0A, CHR 0x09]
                  @ ''$('' @ [CHR 0x27] @ ''#'' @ (selsafe name @ ''_input'') @ [CHR 0x27] @ '').''
                      @ picker @ ''();'' @ [CHR 0x0A, CHR 0x09]
                  @ ''$('' @ [CHR 0x27] @ ''#'' @ (selsafe name @ ''_input'') @ [CHR 0x27] @ '').''
                      @ picker @ ''('' @ [CHR 0x27] @ ''option'' @ [CHR 0x27] @ '', ''
                      @ [CHR 0x27] @ opt @ [CHR 0x27] @ '', '' @ [CHR 0x27] @ fmt @ [CHR 0x27]
                      @ '');''
                  @ (if i = PyNone then []
                     else [CHR 0x0A, CHR 0x09]
                          @ ''$('' @ [CHR 0x27] @ ''#'' @ (selsafe name @ ''_input'') @ [CHR 0x27]
                          @ '').'' @ picker @ ''('' @ [CHR 0x27] @ ''setDate'' @ [CHR 0x27]
                          @ '', '' @ [CHR 0x27] @ to_string h c i @ [CHR 0x27] @ '');'')
                  @ [CHR 0x0A] @ ''});'') []])]"
    unfolding e
    by (simp add: idiv_def format_js_def picker_init_def picker_option_def picker_setDate_def
        sq_def)
  with l1 l2 t d show ?thesis by blast
qed

text \<open>
  C8. The date, time and date-time serializers write one wrapper \<open>div\<close> that holds a
  label, an input and a script. The text of the script is spelled out: its lines start
  the matching picker (\<open>datepicker\<close>, \<open>timepicker\<close>, \<open>datetimepicker\<close>) on the id of the
  input and set the format option of the picker to the format derived from the \<open>format\<close>
  attribute of the field by the replacements of the source (the stated default when the
  attribute is \<open>None\<close>); the \<open>setDate\<close> line with the value of the instance is there
  exactly when the instance is not \<open>None\<close>.
\<close>

theorem picker_scripts:
  "let q = [CHR 0x27]; nl = [CHR 0x0A]; nt = [CHR 0x0A, CHR 0x09];
       fid = selsafe name @ ''_input'';
       script = (\<lambda>picker opt fmt.
         Elem ''script'' [(''type'', ''text/javascript'')]
           (nl @ ''$(function(){'' @ nt
            @ ''$('' @ q @ ''#'' @ fid @ q @ '').'' @ picker @ ''();'' @ nt
            @ ''$('' @ q @ ''#'' @ fid @ q @ '').'' @ picker @ ''('' @ q @ ''option'' @ q @ '', ''
                @ q @ opt @ q @ '', '' @ q @ fmt @ q @ '');''
            @ (if i = PyNone then []
               else nt @ ''$('' @ q @ ''#'' @ fid @ q @ '').'' @ picker @ ''('' @ q @ ''setDate''
                      @ q @ '', '' @ q @ to_string h c i @ q @ '');'')
            @ nl @ ''});'') []);
       written = (\<lambda>serializer picker opt fmt.
         \<exists>lab inp.
           serializer h c i name
             = Inr [Write (Elem ''div'' [(''class'', ''label-input-wrapper'')] []
                             [lab, inp, script picker opt fmt])]
           \<and> tag lab = ''label'' \<and> attrib_get ''for'' (attrib lab) = Some fid
           \<and> tag inp = ''input'' \<and> attrib_get ''id'' (attrib inp) = Some fid)
   in written date_to_parent ''datepicker'' ''dateFormat''
        (case date_format (attrs c) of
           None \<Rightarrow> ''yy-mm-dd''
         | Some f \<Rightarrow> replace ''%d'' ''dd'' (replace ''%m'' ''mm'' (replace ''%Y'' ''yy'' f)))
      \<and> written time_to_parent ''timepicker'' ''timeFormat''
        (case date_format (attrs c) of
           None \<Rightarrow> ''HH:MM:SS''
         | Some f \<Rightarrow> replace ''%S'' ''SS'' (replace ''%M'' ''MM'' (replace ''%H'' ''HH'' f)))
      \<and> written datetime_to_parent ''datetimepicker'' ''DateTimeFormat''
        (case date_format (attrs c) of
           None \<Rightarrow> ''yy-mm-dd HH:MM:SS''
         | Some f \<Rightarrow>
             replace ''%S'' ''SS'' (replace ''%M'' ''MM'' (replace ''%H'' ''HH''
               (replace ''%d'' ''dd'' (replace ''%m'' ''mm'' (replace ''%Y'' ''yy'' f))))))"
  unfolding Let_def
  using picker_to_parent_written [of "''datepicker''" "''dateFormat''" "date_data_format (attrs c)"
      h c i i name]
    picker_to_parent_written [of "''timepicker''" "''timeFormat''" "time_data_format (attrs c)"
      h c i i name]
    picker_to_parent_written [of "''datetimepicker''" "''DateTimeFormat''"
      "datetime_data_format (attrs c)" h c PyNone i name]
  unfolding date_to_parent_def [symmetric] time_to_parent_def [symmetric]
    datetime_to_parent_def [symmetric]
  unfolding date_data_format_def time_data_format_def datetime_data_format_def
  by (intro conjI)

lemma replace_step:
  "replace (a # b # []) new (c # s) =
     (if s \<noteq> [] \<and> c = a \<and> hd s = b then new @ replace [a, b] new (tl s)
      else c # replace [a, b] new s)"
  by (subst replace.simps) (cases s; simp)

theorem picker_scripts_witness:
  "(\<exists>lab inp.
      date_to_parent (example_host (\<lambda>n. []) Python3) example_date (PyStr ''24.12.2014'')
          ''birth.day''
        = Inr [Write (Elem ''div'' [(''class'', ''label-input-wrapper'')] []
            [lab, inp,
             Elem ''script'' [(''type'', ''text/javascript'')]
               ([CHR 0x0A] @ ''$(function(){'' @ [CHR 0x0A, CHR 0x09]
                @ ''$('' @ [CHR 0x27] @ ''#birth__day_input'' @ [CHR 0x27] @ '').datepicker();''
                @ [CHR 0x0A, CHR 0x09]
                @ ''$('' @ [CHR 0x27] @ ''#birth__day_input'' @ [CHR 0x27] @ '').datepicker(''
                    @ [CHR 0x27] @ ''option'' @ [CHR 0x27] @ '', '' @ [CHR 0x27] @ ''dateFormat''
                    @ [CHR 0x27] @ '', '' @ [CHR 0x27] @ ''dd.mm.yy'' @ [CHR 0x27] @ '');''
                @ [CHR 0x0A, CHR 0x09]
                @ ''$('' @ [CHR 0x27] @ ''#birth__day_input'' @ [CHR 0x27] @ '').datepicker(''
                    @ [CHR 0x27] @ ''setDate'' @ [CHR 0x27] @ '', '' @ [CHR 0x27]
                    @ ''24.12.2014'' @ [CHR 0x27] @ '');''
                @ [CHR 0x0A] @ ''});'') []])]
      \<and> tag lab = ''label'' \<and> attrib_get ''for'' (attrib lab) = Some ''birth__day_input''
      \<and> tag inp = ''input'' \<and> attrib_get ''id'' (attrib inp) = Some ''birth__day_input'')
   \<and> date_to_parent (example_host (\<lambda>n. []) Python3) example_date (PyStr ''24.12.2014'')
          ''birth.day''
        = Inr [Write (Elem ''div'' [(''class'', ''label-input-wrapper'')] []
            [Elem ''label'' [(''for'', ''birth__day_input'')] ''birth.day'' [],
             Elem ''input'' [(''id'', ''birth__day_input''), (''name'', ''birth.day''),
                (''class'', ''date''), (''type'', ''text''), (''value'', ''24.12.2014'')] [] [],
             Elem ''script'' [(''type'', ''text/javascript'')]
               ([CHR 0x0A] @ ''$(function(){'' @ [CHR 0x0A, CHR 0x09]
                @ ''$('' @ [CHR 0x27] @ ''#birth__day_input'' @ [CHR 0x27] @ '').datepicker();''
                @ [CHR 0x0A, CHR 0x09]
                @ ''$('' @ [CHR 0x27] @ ''#birth__day_input'' @ [CHR 0x27] @ '').datepicker(''
                    @ [CHR 0x27] @ ''option'' @ [CHR 0x27] @ '', '' @ [CHR 0x27] @ ''dateFormat''
                    @ [CHR 0x27] @ '', '' @ [CHR 0x27] @ ''dd.mm.yy'' @ [CHR 0x27] @ '');''
                @ [CHR 0x0A, CHR 0x09]
                @ ''$('' @ [CHR 0x27] @ ''#birth__day_input'' @ [CHR 0x27] @ '').datepicker(''
                    @ [CHR 0x27] @ ''setDate'' @ [CHR 0x27] @ '', '' @ [CHR 0x27]
                    @ ''24.12.2014'' @ [CHR 0x27] @ '');''
                @ [CHR 0x0A] @ ''});'') []])]
   \<and> time_to_parent (example_host (\<lambda>n. []) Python3)
          (Cls ''Time'' (Primitive Time) (example_attrs \<lparr> date_format := Some ''%H.%M'' \<rparr>))
          PyNone ''at''
        = Inr [Write (Elem ''div'' [(''class'', ''label-input-wrapper'')] []
            [Elem ''label'' [(''for'', ''at_input'')] ''at'' [],
             Elem ''input'' [(''id'', ''at_input''), (''name'', ''at''), (''class'', ''time''),
                (''type'', ''text'')] [] [],
             Elem ''script'' [(''type'', ''text/javascript'')]
               ([CHR 0x0A] @ ''$(function(){'' @ [CHR 0x0A, CHR 0x09]
                @ ''$('' @ [CHR 0x27] @ ''#at_input'' @ [CHR 0x27] @ '').timepicker();''
                @ [CHR 0x0A, CHR 0x09]
                @ ''$('' @ [CHR 0x27] @ ''#at_input'' @ [CHR 0x27] @ '').timepicker(''
                    @ [CHR 0x27] @ ''option'' @ [CHR 0x27] @ '', '' @ [CHR 0x27] @ ''timeFormat''
                    @ [CHR 0x27] @ '', '' @ [CHR 0x27] @ ''HH.MM'' @ [CHR 0x27] @ '');''
                @ [CHR 0x0A] @ ''});'') []])]
   \<and> datetime_to_parent (example_host (\<lambda>n. []) Python3)
          (Cls ''DateTime'' (Primitive DateTime) example_attrs) (PyStr ''2014-12-24 18:00:00'')
          ''seen''
        = Inr [Write (Elem ''div'' [(''class'', ''label-input-wrapper'')] []
            [Elem ''label'' [(''for'', ''seen_input'')] ''seen'' [],
             Elem ''input'' [(''id'', ''seen_input''), (''name'', ''seen''),
                (''class'', ''date_time''), (''type'', ''text'')] [] [],
             Elem ''script'' [(''type'', ''text/javascript'')]
               ([CHR 0x0A] @ ''$(function(){'' @ [CHR 0x0A, CHR 0x09]
                @ ''$('' @ [CHR 0x27] @ ''#seen_input'' @ [CHR 0x27] @ '').datetimepicker();''
                @ [CHR 0x0A, CHR 0x09]
                @ ''$('' @ [CHR 0x27] @ ''#seen_input'' @ [CHR 0x27] @ '').datetimepicker(''
                    @ [CHR 0x27] @ ''option'' @ [CHR 0x27] @ '', '' @ [CHR 0x27]
                    @ ''DateTimeFormat'' @ [CHR 0x27] @ '', '' @ [CHR 0x27]
                    @ ''yy-mm-dd HH:MM:SS'' @ [CHR 0x27] @ '');''
                @ [CHR 0x0A, CHR 0x09]
                @ ''$('' @ [CHR 0x27] @ ''#seen_input'' @ [CHR 0x27] @ '').datetimepicker(''
                    @ [CHR 0x27] @ ''setDate'' @ [CHR 0x27] @ '', '' @ [CHR 0x27]
                    @ ''2014-12-24 18:00:00'' @ [CHR 0x27] @ '');''
                @ [CHR 0x0A] @ ''});'') []])]"
  (is "?A \<and> ?B \<and> ?C \<and> ?D")
proof -
  let ?h = "example_host (\<lambda>n. []) Python3"
  have f: "date_format (attrs example_date) = Some ''%d.%m.%Y''"
    by (simp add: example_date_def example_attrs_def)
  have r: "replace ''%d'' ''dd'' (replace ''%m'' ''mm'' (replace ''%Y'' ''yy'' ''%d.%m.%Y''))
      = ''dd.mm.yy''"
    by (simp add: replace_step replace_Nil)
  have s: "selsafe ''birth.day'' = ''birth__day''" by (simp add: selsafe_concat)
  have ts: "to_string ?h example_date (PyStr ''24.12.2014'') = ''24.12.2014''"
    by (simp add: example_host_def)
  from conjunct1 [OF picker_scripts [of "''birth.day''" "PyStr ''24.12.2014''" ?h example_date,
      unfolded Let_def s f ts]]
  have a: ?A by (simp add: r)
  have b: ?B by code_simp
  have c: ?C by code_simp
  have d: ?D by code_simp
  from a b c d show ?thesis by (intro conjI)
qed

lemma digit_val_chr: "digit_val (digit_chr n) = n mod 10"
proof -
  have "list_all (\<lambda>m. digit_val (''0123456789'' ! m) = m) [0..<10]"
    by code_simp
  then have "m < 10 \<Longrightarrow> digit_val (''0123456789'' ! m) = m" for m :: nat
    by (simp add: list_all_iff)
  then show ?thesis by (simp add: digit_chr_def)
qed

lemma decimal_val_snoc: "decimal_val (s @ [c]) = 10 * decimal_val s + digit_val c"
  by (simp add: decimal_val_def)

lemma decimal_val_digits: "decimal_val (digits n) = n"
proof (induction n rule: digits.induct)
  case (1 n)
  show ?case
  proof (cases "n < 10")
    case True
    then show ?thesis
      by (subst digits.simps) (simp add: decimal_val_def digit_val_chr)
  next
    case False
    with 1 have "decimal_val (digits (n div 10)) = n div 10" by simp
    with False show ?thesis
      by (subst digits.simps) (simp add: decimal_val_snoc digit_val_chr)
  qed
qed

lemma decimal_val_zeros: "decimal_val (replicate k CHR ''0'' @ s) = decimal_val s"
proof -
  have z: "digit_val CHR ''0'' = 0" by (simp add: digit_val_def)
  have "foldl (\<lambda>a c. 10 * a + digit_val c) 0 (replicate k CHR ''0'') = 0"
    by (induction k) (simp_all add: z)
  then show ?thesis by (simp add: decimal_val_def)
qed

lemma decimal_val_fmt: "decimal_val (fmt_09d (int i)) = i"
  by (simp add: fmt_09d_def Let_def decimal_val_zeros decimal_val_digits)

lemma fmt_09d_inj: "fmt_09d (int i) = fmt_09d (int j) \<Longrightarrow> i = j"
  using decimal_val_fmt by metis

lemma length_digits: "n < 10 ^ k \<Longrightarrow> 0 < k \<Longrightarrow> length (digits n) \<le> k"
proof (induction k arbitrary: n)
  case 0
  then show ?case by simp
next
  case (Suc k)
  show ?case
  proof (cases "n < 10")
    case True
    then show ?thesis by (subst digits.simps) simp
  next
    case False
    then have k: "0 < k" using Suc.prems by (cases k) auto
    have "n div 10 < 10 ^ k" using Suc.prems by (simp add: less_mult_imp_div_less mult.commute)
    from Suc.IH [OF this k] False show ?thesis by (subst digits.simps) simp
  qed
qed

lemma length_fmt_09d: "i < 10 ^ 9 \<Longrightarrow> length (fmt_09d (int i)) = 9"
  using length_digits [of i 9] by (simp add: fmt_09d_def Let_def)

lemma array_key_distinct: "distinct (map (\<lambda>i. array_key key (int i)) [0..<m])"
proof -
  have "inj_on (\<lambda>i. array_key key (int i)) {0..<m}"
    by (rule inj_onI) (auto simp: array_key_def dest: fmt_09d_inj)
  then show ?thesis by (simp add: distinct_map)
qed

lemma pull_items_Finished:
  assumes "pull_items tp d h key c idx xs n = (ev, n', Finished u)"
  shows "\<exists>evs ms. length evs = length xs \<and> length ms = Suc (length xs) \<and> ms ! 0 = n
           \<and> ms ! length xs = n'
           \<and> (\<forall>i<length xs. tp h c (xs ! i) (array_key key (int (idx + i))) True (ms ! i)
                  = (evs ! i, ms ! Suc i, Done))
           \<and> ev = concat (map (\<lambda>e. [Enter ''div'' [(''class'', key)]] @ e
                     @ (if no_write (attrs c) then [] else buttons key)
                     @ [Exit ''div'' [(''class'', key)]]) evs)"
  using assms
proof (induction xs arbitrary: idx n ev)
  case Nil
  then show ?case by (auto intro!: exI [of _ "[]"] exI [of _ "[n]"])
next
  case (Cons x xs)
  obtain e1 n1 r1 where tp: "tp h c x (array_key key (int idx)) True n = (e1, n1, r1)"
    by (metis prod_cases3)
  with Cons.prems have r1: "r1 = Done"
    by (cases r1) (auto simp: Let_def split: prod.splits)
  obtain e2 n2 r2 where rest: "pull_items tp d h key c (Suc idx) xs n1 = (e2, n2, r2)"
    by (metis prod_cases3)
  with Cons.prems tp r1 have r2: "r2 = Finished u" and n2: "n2 = n'"
    and ev: "ev = [Enter ''div'' [(''class'', key)]] @ e1
         @ (if no_write (attrs c) then [] else buttons key)
         @ [Exit ''div'' [(''class'', key)]] @ e2"
    by (auto simp: Let_def item_div_def)
  from Cons.IH [OF rest [unfolded r2 n2]] obtain evs ms where
    l: "length evs = length xs" "length ms = Suc (length xs)" "ms ! 0 = n1" "ms ! length xs = n'"
    and calls: "\<forall>i<length xs. tp h c (xs ! i) (array_key key (int (Suc idx + i))) True (ms ! i)
                  = (evs ! i, ms ! Suc i, Done)"
    and e2: "e2 = concat (map (\<lambda>e. [Enter ''div'' [(''class'', key)]] @ e
                     @ (if no_write (attrs c) then [] else buttons key)
                     @ [Exit ''div'' [(''class'', key)]]) evs)"
    by blast
  have "\<forall>i<length (x # xs). tp h c ((x # xs) ! i) (array_key key (int (idx + i))) True ((n # ms) ! i)
                  = ((e1 # evs) ! i, (n # ms) ! Suc i, Done)"
  proof (intro allI impI)
    fix i assume "i < length (x # xs)"
    then show "tp h c ((x # xs) ! i) (array_key key (int (idx + i))) True ((n # ms) ! i)
                  = ((e1 # evs) ! i, (n # ms) ! Suc i, Done)"
      using tp r1 l calls by (cases i) auto
  qed
  moreover have "length (e1 # evs) = length (x # xs)" "length (n # ms) = Suc (length (x # xs))"
    "(n # ms) ! 0 = n" "(n # ms) ! length (x # xs) = n'"
    using l n2 by auto
  moreover have "ev = concat (map (\<lambda>e. [Enter ''div'' [(''class'', key)]] @ e
                     @ (if no_write (attrs c) then [] else buttons key)
                     @ [Exit ''div'' [(''class'', key)]]) (e1 # evs))"
    using ev e2 by simp
  ultimately show ?case by blast
qed

text \<open>
  A list of primitive values is always rendered to its end, whatever the values.
\<close>

lemma pull_items_primitive:
  assumes "kind c = Primitive p"
  shows "\<exists>ev. pull_items (to_parent (Suc d)) (Suc d) h key c idx xs n = (ev, n, Finished ())"
proof (induction xs arbitrary: idx)
  case Nil
  show ?case by simp
next
  case (Cons x xs)
  from primitive_writes_wrapper [of p h c x "array_key key (int idx)"] assms
  obtain w where "to_parent (Suc d) h c x (array_key key (int idx)) True n = ([Write w], n, Done)"
    by (auto simp: dispatch_def)
  moreover from Cons [of "Suc idx"] obtain ev where
    "pull_items (to_parent (Suc d)) (Suc d) h key c (Suc idx) xs n = (ev, n, Finished ())"
    by blast
  ultimately show ?case by (simp add: Let_def)
qed

lemma pull_primitive_completes:
  assumes "kind c = Primitive p"
  shows "\<exists>ev. pull_to_parent (to_parent (Suc d)) (Suc d) h c (PyList xs) name n = (ev, n, Done)"
  using pull_items_primitive [OF assms, of d h "selsafe name" 0 xs n]
  by (auto simp: pull_to_parent_def pull_finish_def)

lemma pull_to_parent_Done_rendered:
  assumes "pull_to_parent tp d h c (PyList xs) name n = (ev, n', Done)"
  shows "\<exists>evs ms. length evs = length xs \<and> length ms = Suc (length xs) \<and> ms ! 0 = n
           \<and> ms ! length xs = n'
           \<and> (\<forall>i<length xs.
                 tp h c (xs ! i) (selsafe name @ ''['' @ fmt_09d (int i) @ '']'') True (ms ! i)
                  = (evs ! i, ms ! Suc i, Done))
           \<and> ev = concat (map (\<lambda>e. [Enter ''div'' [(''class'', selsafe name)]] @ e
                     @ (if no_write (attrs c) then [] else buttons (selsafe name))
                     @ [Exit ''div'' [(''class'', selsafe name)]]) evs)
                  @ (if no_write (attrs c) then [] else gen_array_js (selsafe name))
           \<and> distinct (map (\<lambda>i. selsafe name @ ''['' @ fmt_09d (int i) @ '']'') [0..<length xs])
           \<and> (\<forall>i<length xs. i < 10 ^ 9 \<longrightarrow> length (fmt_09d (int i)) = 9
                  \<and> decimal_val (fmt_09d (int i)) = i)"
proof -
  obtain e0 n0 r0 where items: "pull_items tp d h (selsafe name) c 0 xs n = (e0, n0, r0)"
    by (metis prod_cases3)
  with assms have r0: "r0 = Finished ()" and n0: "n0 = n'"
    and ev: "ev = e0 @ (if no_write (attrs c) then [] else gen_array_js (selsafe name))"
    by (cases r0; simp add: pull_to_parent_def pull_finish_def)+
  from pull_items_Finished [OF items [unfolded r0]] obtain evs ms where
    "length evs = length xs" "length ms = Suc (length xs)" "ms ! 0 = n" "ms ! length xs = n0"
    "\<forall>i<length xs. tp h c (xs ! i) (array_key (selsafe name) (int (0 + i))) True (ms ! i)
                  = (evs ! i, ms ! Suc i, Done)"
    "e0 = concat (map (\<lambda>e. [Enter ''div'' [(''class'', selsafe name)]] @ e
                     @ (if no_write (attrs c) then [] else buttons (selsafe name))
                     @ [Exit ''div'' [(''class'', selsafe name)]]) evs)"
    by blast
  moreover have "distinct (map (\<lambda>i. selsafe name @ ''['' @ fmt_09d (int i) @ '']'') [0..<length xs])"
    using array_key_distinct [of "selsafe name" "length xs"] by (simp add: array_key_def)
  moreover have "\<forall>i<length xs. i < 10 ^ 9 \<longrightarrow> length (fmt_09d (int i)) = 9
                  \<and> decimal_val (fmt_09d (int i)) = i"
    by (simp add: length_fmt_09d decimal_val_fmt)
  ultimately show ?thesis
    using ev n0 by (simp add: array_key_def) blast
qed

lemma buttons_written:
  "buttons key =
     [Write (Elem ''button'' [(''class'', key @ ''_btn_add''), (''type'', ''button'')] ''+'' []),
      Write (Elem ''button'' [(''class'', key @ ''_btn_del''), (''type'', ''button'')] ''-'' [])]"
  by (simp add: buttons_def)

lemma gen_array_js_written:
  "gen_array_js k =
     [Write (Elem ''script'' [(''type'', ''text/javascript'')]
        ([CHR 0x0A] @ ''$(function() {'' @ [CHR 0x0A]
         @ ''    var field_name = '' @ [CHR 0x22] @ ''.'' @ [CHR 0x22] @ '' + '' @ [CHR 0x22] @ k
             @ [CHR 0x22] @ '';'' @ [CHR 0x0A]
         @ [CHR 0x0A]
         @ ''    var add = function() {'' @ [CHR 0x0A]
         @ ''        var f = $($(field_name)[0]).clone();'' @ [CHR 0x0A]
         @ ''        f.appendTo($(field_name).parent());'' @ [CHR 0x0A]
         @ ''        f.find('' @ [CHR 0x22] @ ''.'' @ k @ ''_btn_add'' @ [CHR 0x22] @ '').click(add);''
             @ [CHR 0x0A]
         @ ''        f.find('' @ [CHR 0x22] @ ''.'' @ k @ ''_btn_del'' @ [CHR 0x22] @ '').click(del);''
             @ [CHR 0x0A]
         @ ''        return false;'' @ [CHR 0x0A]
         @ ''    };'' @ [CHR 0x0A]
         @ [CHR 0x0A]
         @ ''    var del = function(event) {'' @ [CHR 0x0A]
         @ ''        if($('' @ [CHR 0x27] @ ''#'' @ k @ ''_container'' @ [CHR 0x27] @ '').find(''
             @ [CHR 0x27] @ ''.'' @ k @ [CHR 0x27] @ '').length > 1){'' @ [CHR 0x0A]
         @ ''            $(this).parent().remove();'' @ [CHR 0x0A]
         @ ''        }'' @ [CHR 0x0A]
         @ ''        else{'' @ [CHR 0x0A]
         @ ''            $(this).parent().children().val('' @ [CHR 0x22] @ [CHR 0x22] @ '')''
             @ [CHR 0x0A]
         @ ''        }'' @ [CHR 0x0A]
         @ ''       event.preventDefault();'' @ [CHR 0x0A]
         @ ''    };'' @ [CHR 0x0A]
         @ [CHR 0x0A]
         @ ''    $('' @ [CHR 0x22] @ ''.'' @ k @ ''_btn_add'' @ [CHR 0x22] @ '').click(add);''
             @ [CHR 0x0A]
         @ ''    $('' @ [CHR 0x22] @ ''.'' @ k @ ''_btn_del'' @ [CHR 0x22] @ '').click(del);''
             @ [CHR 0x0A]
         @ ''});'') [])]"
  by (simp add: gen_array_js_def array_js_lines_def sq_def)

text \<open>
  C6. When \<open>_pull_to_parent\<close> runs to its end on a list of \<open>n\<close> instances, it has written,
  for each position \<open>i\<close> from \<open>0\<close> to \<open>n - 1\<close> and in that order, one \<open>div\<close> of class
  \<open>selsafe(name)\<close> that holds what \<open>to_parent\<close> wrote for the \<open>i\<close>-th instance under the key
  \<open>selsafe(name)[i]\<close> and, unless \<open>no_write\<close> is set, the add button and the delete button;
  after the items comes the one script, whose text is spelled out, unless \<open>no_write\<close> is
  set. The keys are pairwise distinct, and below \<open>10^9\<close> the index is written with nine
  digits that read as \<open>i\<close>.
\<close>

theorem pull_renders_every_item:
  assumes "pull_to_parent tp d h c (PyList xs) name n = (ev, n', Done)"
  shows "let key = selsafe name; dq = [CHR 0x22]; q = [CHR 0x27]; nl = [CHR 0x0A];
             add_button = Write (Elem ''button'' [(''class'', key @ ''_btn_add''),
                                                  (''type'', ''button'')] ''+'' []);
             del_button = Write (Elem ''button'' [(''class'', key @ ''_btn_del''),
                                                  (''type'', ''button'')] ''-'' []);
             script = Write (Elem ''script'' [(''type'', ''text/javascript'')]
               (nl @ ''$(function() {'' @ nl
                @ ''    var field_name = '' @ dq @ ''.'' @ dq @ '' + '' @ dq @ key @ dq @ '';'' @ nl
                @ nl
                @ ''    var add = function() {'' @ nl
                @ ''        var f = $($(field_name)[0]).clone();'' @ nl
                @ ''        f.appendTo($(field_name).parent());'' @ nl
                @ ''        f.find('' @ dq @ ''.'' @ key @ ''_btn_add'' @ dq @ '').click(add);'' @ nl
                @ ''        f.find('' @ dq @ ''.'' @ key @ ''_btn_del'' @ dq @ '').click(del);'' @ nl
                @ ''        return false;'' @ nl
                @ ''    };'' @ nl
                @ nl
                @ ''    var del = function(event) {'' @ nl
                @ ''        if($('' @ q @ ''#'' @ key @ ''_container'' @ q @ '').find('' @ q @ ''.''
                    @ key @ q @ '').length > 1){'' @ nl
                @ ''            $(this).parent().remove();'' @ nl
                @ ''        }'' @ nl
                @ ''        else{'' @ nl
                @ ''            $(this).parent().children().val('' @ dq @ dq @ '')'' @ nl
                @ ''        }'' @ nl
                @ ''       event.preventDefault();'' @ nl
                @ ''    };'' @ nl
                @ nl
                @ ''    $('' @ dq @ ''.'' @ key @ ''_btn_add'' @ dq @ '').click(add);'' @ nl
                @ ''    $('' @ dq @ ''.'' @ key @ ''_btn_del'' @ dq @ '').click(del);'' @ nl
                @ ''});'') [])
         in \<exists>evs ms. length evs = length xs \<and> length ms = Suc (length xs) \<and> ms ! 0 = n
              \<and> ms ! length xs = n'
              \<and> (\<forall>i<length xs.
                    tp h c (xs ! i) (key @ ''['' @ fmt_09d (int i) @ '']'') True (ms ! i)
                     = (evs ! i, ms ! Suc i, Done))
              \<and> ev = concat (map (\<lambda>e. [Enter ''div'' [(''class'', key)]] @ e
                        @ (if no_write (attrs c) then [] else [add_button, del_button])
                        @ [Exit ''div'' [(''class'', key)]]) evs)
                     @ (if no_write (attrs c) then [] else [script])
              \<and> distinct (map (\<lambda>i. key @ ''['' @ fmt_09d (int i) @ '']'') [0..<length xs])
              \<and> (\<forall>i<length xs. i < 10 ^ 9 \<longrightarrow> length (fmt_09d (int i)) = 9
                     \<and> decimal_val (fmt_09d (int i)) = i)"
proof -
  from pull_to_parent_Done_rendered [OF assms] obtain evs ms where
    l: "length evs = length xs" "length ms = Suc (length xs)" "ms ! 0 = n" "ms ! length xs = n'"
    and calls: "\<forall>i<length xs.
                 tp h c (xs ! i) (selsafe name @ ''['' @ fmt_09d (int i) @ '']'') True (ms ! i)
                  = (evs ! i, ms ! Suc i, Done)"
    and ev: "ev = concat (map (\<lambda>e. [Enter ''div'' [(''class'', selsafe name)]] @ e
                     @ (if no_write (attrs c) then [] else buttons (selsafe name))
                     @ [Exit ''div'' [(''class'', selsafe name)]]) evs)
                  @ (if no_write (attrs c) then [] else gen_array_js (selsafe name))"
    and dist: "distinct (map (\<lambda>i. selsafe name @ ''['' @ fmt_09d (int i) @ '']'') [0..<length xs])"
    and digs: "\<forall>i<length xs. i < 10 ^ 9 \<longrightarrow> length (fmt_09d (int i)) = 9
                  \<and> decimal_val (fmt_09d (int i)) = i"
    by blast
  show ?thesis
    unfolding Let_def
    apply (rule exI [of _ evs], rule exI [of _ ms])
    apply (intro conjI)
           apply (rule l(1))
          apply (rule l(2))
         apply (rule l(3))
        apply (rule l(4))
       apply (rule calls)
      apply (subst ev, subst buttons_written, subst gen_array_js_written, rule refl)
     apply (rule dist)
    apply (rule digs)
    done
qed

theorem pull_renders_every_item_witness:
  "pull_to_parent (to_parent 1) 1 (example_host (\<lambda>n. []) Python3) example_tags
      (PyList [PyStr ''a'', PyStr ''b'']) ''person.tags'' 0
     = ([Enter ''div'' [(''class'', ''person__tags'')],
         Write (Elem ''div'' [(''class'', ''label-input-wrapper'')] []
           [Elem ''label'' [(''for'', ''person__tags000000000_input'')]
              ''person__tags[000000000]'' [],
            Elem ''input'' [(''id'', ''person__tags000000000_input''),
               (''name'', ''person__tags[000000000]''), (''class'', ''unicode''),
               (''type'', ''text''), (''value'', ''a'')] [] []]),
         Write (Elem ''button'' [(''class'', ''person__tags_btn_add''), (''type'', ''button'')]
                  ''+'' []),
         Write (Elem ''button'' [(''class'', ''person__tags_btn_del''), (''type'', ''button'')]
                  ''-'' []),
         Exit ''div'' [(''class'', ''person__tags'')],
         Enter ''div'' [(''class'', ''person__tags'')],
         Write (Elem ''div'' [(''class'', ''label-input-wrapper'')] []
           [Elem ''label'' [(''for'', ''person__tags000000001_input'')]
              ''person__tags[000000001]'' [],
            Elem ''input'' [(''id'', ''person__tags000000001_input''),
               (''name'', ''person__tags[000000001]''), (''class'', ''unicode''),
               (''type'', ''text''), (''value'', ''b'')] [] []]),
         Write (Elem ''button'' [(''class'', ''person__tags_btn_add''), (''type'', ''button'')]
                  ''+'' []),
         Write (Elem ''button'' [(''class'', ''person__tags_btn_del''), (''type'', ''button'')]
                  ''-'' []),
         Exit ''div'' [(''class'', ''person__tags'')],
         Write (Elem ''script'' [(''type'', ''text/javascript'')]
           ([CHR 0x0A] @ ''$(function() {'' @ [CHR 0x0A]
            @ ''    var field_name = '' @ [CHR 0x22] @ ''.'' @ [CHR 0x22] @ '' + '' @ [CHR 0x22]
                @ ''person__tags'' @ [CHR 0x22] @ '';'' @ [CHR 0x0A]
            @ [CHR 0x0A]
            @ ''    var add = function() {'' @ [CHR 0x0A]
            @ ''        var f = $($(field_name)[0]).clone();'' @ [CHR 0x0A]
            @ ''        f.appendTo($(field_name).parent());'' @ [CHR 0x0A]
            @ ''        f.find('' @ [CHR 0x22] @ ''.person__tags_btn_add'' @ [CHR 0x22]
                @ '').click(add);'' @ [CHR 0x0A]
            @ ''        f.find('' @ [CHR 0x22] @ ''.person__tags_btn_del'' @ [CHR 0x22]
                @ '').click(del);'' @ [CHR 0x0A]
            @ ''        return false;'' @ [CHR 0x0A]
            @ ''    };'' @ [CHR 0x0A]
            @ [CHR 0x0A]
            @ ''    var del = function(event) {'' @ [CHR 0x0A]
            @ ''        if($('' @ [CHR 0x27] @ ''#person__tags_container'' @ [CHR 0x27]
                @ '').find('' @ [CHR 0x27] @ ''.person__tags'' @ [CHR 0x27]
                @ '').length > 1){'' @ [CHR 0x0A]
            @ ''            $(this).parent().remove();'' @ [CHR 0x0A]
            @ ''        }'' @ [CHR 0x0A]
            @ ''        else{'' @ [CHR 0x0A]
            @ ''            $(this).parent().children().val('' @ [CHR 0x22] @ [CHR 0x22] @ '')''
                @ [CHR 0x0A]
            @ ''        }'' @ [CHR 0x0A]
            @ ''       event.preventDefault();'' @ [CHR 0x0A]
            @ ''    };'' @ [CHR 0x0A]
            @ [CHR 0x0A]
            @ ''    $('' @ [CHR 0x22] @ ''.person__tags_btn_add'' @ [CHR 0x22] @ '').click(add);''
                @ [CHR 0x0A]
            @ ''    $('' @ [CHR 0x22] @ ''.person__tags_btn_del'' @ [CHR 0x22] @ '').click(del);''
                @ [CHR 0x0A]
            @ ''});'') [])],
        0, Done)
   \<and> (\<exists>evs. length evs = 2
        \<and> butlast (fst (pull_to_parent (to_parent 1) 1 (example_host (\<lambda>n. []) Python3)
                           example_tags (PyList [PyStr ''a'', PyStr ''b'']) ''person.tags'' 0))
            = concat (map (\<lambda>e. [Enter ''div'' [(''class'', ''person__tags'')]] @ e
                 @ [Write (Elem ''button'' [(''class'', ''person__tags_btn_add''),
                                            (''type'', ''button'')] ''+'' []),
                    Write (Elem ''button'' [(''class'', ''person__tags_btn_del''),
                                            (''type'', ''button'')] ''-'' [])]
                 @ [Exit ''div'' [(''class'', ''person__tags'')]]) evs))"
  (is "?run = (?ev, 0, Done) \<and> ?shape")
proof -
  have a: "?run = (?ev, 0, Done)" by code_simp
  have s: "selsafe ''person.tags'' = ''person__tags''" by (simp add: selsafe_concat)
  have nw: "\<not> no_write (attrs example_tags)" by (simp add: example_tags_def example_attrs_def)
  have len: "length [PyStr ''a'', PyStr ''b''] = 2" by simp
  from pull_renders_every_item [OF a, unfolded Let_def s len]
  have "\<exists>evs. length evs = 2
        \<and> butlast ?ev
            = concat (map (\<lambda>e. [Enter ''div'' [(''class'', ''person__tags'')]] @ e
                 @ [Write (Elem ''button'' [(''class'', ''person__tags_btn_add''),
                                            (''type'', ''button'')] ''+'' []),
                    Write (Elem ''button'' [(''class'', ''person__tags_btn_del''),
                                            (''type'', ''button'')] ''-'' [])]
                 @ [Exit ''div'' [(''class'', ''person__tags'')]]) evs)"
    apply (elim exE conjE)
    apply (intro exI conjI)
     apply assumption
    apply (simp add: nw)
    done
  then show ?thesis unfolding a fst_conv using refl by (rule conjI [rotated])
qed

text \<open>
  C10. With \<open>inst = None\<close> the pull renderer does what it does with the empty list: it
  raises nothing, writes no item, and writes the script, whose text is spelled out, unless
  \<open>no_write\<close> is set.
\<close>

theorem pull_none_like_empty:
  "let key = selsafe name; dq = [CHR 0x22]; q = [CHR 0x27]; nl = [CHR 0x0A];
       script = Write (Elem ''script'' [(''type'', ''text/javascript'')]
               (nl @ ''$(function() {'' @ nl
                @ ''    var field_name = '' @ dq @ ''.'' @ dq @ '' + '' @ dq @ key @ dq @ '';'' @ nl
                @ nl
                @ ''    var add = function() {'' @ nl
                @ ''        var f = $($(field_name)[0]).clone();'' @ nl
                @ ''        f.appendTo($(field_name).parent());'' @ nl
                @ ''        f.find('' @ dq @ ''.'' @ key @ ''_btn_add'' @ dq @ '').click(add);'' @ nl
                @ ''        f.find('' @ dq @ ''.'' @ key @ ''_btn_del'' @ dq @ '').click(del);'' @ nl
                @ ''        return false;'' @ nl
                @ ''    };'' @ nl
                @ nl
                @ ''    var del = function(event) {'' @ nl
                @ ''        if($('' @ q @ ''#'' @ key @ ''_container'' @ q @ '').find('' @ q @ ''.''
                    @ key @ q @ '').length > 1){'' @ nl
                @ ''            $(this).parent().remove();'' @ nl
                @ ''        }'' @ nl
                @ ''        else{'' @ nl
                @ ''            $(this).parent().children().val('' @ dq @ dq @ '')'' @ nl
                @ ''        }'' @ nl
                @ ''       event.preventDefault();'' @ nl
                @ ''    };'' @ nl
                @ nl
                @ ''    $('' @ dq @ ''.'' @ key @ ''_btn_add'' @ dq @ '').click(add);'' @ nl
                @ ''    $('' @ dq @ ''.'' @ key @ ''_btn_del'' @ dq @ '').click(del);'' @ nl
                @ ''});'') [])
   in pull_to_parent tp d h c PyNone name n = pull_to_parent tp d h c (PyList []) name n
      \<and> pull_to_parent tp d h c PyNone name n
          = (if no_write (attrs c) then [] else [script], n, Done)"
  unfolding Let_def
  by (simp add: pull_to_parent_def pull_finish_def gen_array_js_written)

theorem pull_none_like_empty_witness:
  "pull_to_parent (to_parent 1) 1 (example_host (\<lambda>n. []) Python3) example_tags PyNone
       ''person.tags'' 0
     = pull_to_parent (to_parent 1) 1 (example_host (\<lambda>n. []) Python3) example_tags (PyList [])
         ''person.tags'' 0
   \<and> pull_to_parent (to_parent 1) 1 (example_host (\<lambda>n. []) Python3) example_tags PyNone
       ''person.tags'' 0
     = ([Write (Elem ''script'' [(''type'', ''text/javascript'')]
           ([CHR 0x0A] @ ''$(function() {'' @ [CHR 0x0A]
            @ ''    var field_name = '' @ [CHR 0x22] @ ''.'' @ [CHR 0x22] @ '' + '' @ [CHR 0x22]
                @ ''person__tags'' @ [CHR 0x22] @ '';'' @ [CHR 0x0A]
            @ [CHR 0x0A]
            @ ''    var add = function() {'' @ [CHR 0x0A]
            @ ''        var f = $($(field_name)[0]).clone();'' @ [CHR 0x0A]
            @ ''        f.appendTo($(field_name).parent());'' @ [CHR 0x0A]
            @ ''        f.find('' @ [CHR 0x22] @ ''.person__tags_btn_add'' @ [CHR 0x22]
                @ '').click(add);'' @ [CHR 0x0A]
            @ ''        f.find('' @ [CHR 0x22] @ ''.person__tags_btn_del'' @ [CHR 0x22]
                @ '').click(del);'' @ [CHR 0x0A]
            @ ''        return false;'' @ [CHR 0x0A]
            @ ''    };'' @ [CHR 0x0A]
            @ [CHR 0x0A]
            @ ''    var del = function(event) {'' @ [CHR 0x0A]
            @ ''        if($('' @ [CHR 0x27] @ ''#person__tags_container'' @ [CHR 0x27]
                @ '').find('' @ [CHR 0x27] @ ''.person__tags'' @ [CHR 0x27]
                @ '').length > 1){'' @ [CHR 0x0A]
            @ ''            $(this).parent().remove();'' @ [CHR 0x0A]
            @ ''        }'' @ [CHR 0x0A]
            @ ''        else{'' @ [CHR 0x0A]
            @ ''            $(this).parent().children().val('' @ [CHR 0x22] @ [CHR 0x22] @ '')''
                @ [CHR 0x0A]
            @ ''        }'' @ [CHR 0x0A]
            @ ''       event.preventDefault();'' @ [CHR 0x0A]
            @ ''    };'' @ [CHR 0x0A]
            @ [CHR 0x0A]
            @ ''    $('' @ [CHR 0x22] @ ''.person__tags_btn_add'' @ [CHR 0x22] @ '').click(add);''
                @ [CHR 0x0A]
            @ ''    $('' @ [CHR 0x22] @ ''.person__tags_btn_del'' @ [CHR 0x22] @ '').click(del);''
                @ [CHR 0x0A]
            @ ''});'') [])],
        0, Done)"
  (is "?A \<and> ?B")
proof -
  have s: "selsafe ''person.tags'' = ''person__tags''" by (simp add: selsafe_concat)
  have nw: "\<not> no_write (attrs example_tags)" by (simp add: example_tags_def example_attrs_def)
  note T = pull_none_like_empty [of "''person.tags''" "to_parent 1" 1
      "example_host (\<lambda>n. []) Python3" example_tags 0, unfolded Let_def s]
  from T have a: ?A by (rule conjunct1)
  from conjunct2 [OF T] nw have b: ?B by (simp del: to_parent.simps)
  from a b show ?thesis by (rule conjI)
qed

text \<open>
  C2 (the code differs). In \<open>_push_to_parent\<close> the index starts at \<open>-1\<close> and the statement
  \<open>i += 0\<close> leaves it there. Two values pushed one after the other are both rendered under
  the key \<open>tags[-00000001]\<close>, not under \<open>tags[000000000]\<close> and \<open>tags[000000001]\<close>.
\<close>

theorem push_index_stays:
  "send_all (example_host (\<lambda>n. []) Python3) example_push [PyStr ''a'', PyStr ''b''] 0
   = ([tag_input ''tags[-00000001]'' ''a'',
       Exit ''div'' [(''class'', ''tags'')], Enter ''div'' [(''class'', ''tags'')],
       tag_input ''tags[-00000001]'' ''b'',
       Exit ''div'' [(''class'', ''tags'')], Enter ''div'' [(''class'', ''tags'')]],
      0, Susp example_push)"
  by code_simp

text \<open>
  C5 (the code differs). For an instance of \<open>PushBase\<close>, \<open>array_to_parent\<close> enters the
  container, starts the coroutine, which enters the first item \<open>div\<close> and waits, and leaves
  the container as it returns the coroutine. What the coroutine writes for a value that
  is pushed afterwards comes after the \<open>Exit\<close> of the container.
\<close>

theorem array_container_left_before_push:
  "array_to_parent (to_parent 1) 1 (example_host (\<lambda>n. []) Python3) example_tags PyPush ''tags'' 0
     = ([Enter ''div'' [(''id'', ''tags_container''), (''class'', ''array'')],
         Enter ''div'' [(''class'', ''tags'')],
         Exit ''div'' [(''id'', ''tags_container''), (''class'', ''array'')]],
        0, Susp example_push)
   \<and> send (example_host (\<lambda>n. []) Python3) example_push (PyStr ''a'') 0
     = ([tag_input ''tags[-00000001]'' ''a'',
         Exit ''div'' [(''class'', ''tags'')], Enter ''div'' [(''class'', ''tags'')]],
        0, Susp example_push)"
  by code_simp

lemma nesting_append:
  "nesting st (a @ b) = (case nesting st a of None \<Rightarrow> None | Some st' \<Rightarrow> nesting st' b)"
  by (induction st a rule: nesting.induct) (auto split: list.splits)

lemma nesting_frame: "nesting st ev = Some st' \<Longrightarrow> nesting (st @ S) ev = Some (st' @ S)"
  by (induction st ev rule: nesting.induct) (auto split: list.splits if_splits)

lemma balanced_frame: "balanced ev \<Longrightarrow> nesting S ev = Some S"
  using nesting_frame [of "[]" ev "[]" S] by (simp add: balanced_def)

lemma nesting_exit_ctx:
  "nesting ((case c of None \<Rightarrow> [] | Some x \<Rightarrow> [x]) @ S) (exit_ctx c) = Some S"
  by (cases c) (auto simp: exit_ctx_def)

lemma nesting_close_groups: "nesting (open_groups g @ S) (close_groups g) = Some S"
  by (cases "fset_ctx g"; cases "tab_ctx g"; cases "tabview_ctx g")
     (auto simp: open_groups_def close_groups_def exit_ctx_def nesting_append)

lemma tab_step_nesting:
  assumes "tab_step h fti a g n = (ev, n', Inr g')"
    and "prev_tab g = None \<longrightarrow> tabview_ctx g = None"
  shows "nesting (open_groups g @ S) ev = Some (open_groups g' @ S)
         \<and> (prev_tab g' = None \<longrightarrow> tabview_ctx g' = None)"
proof (cases "tab a = prev_tab g")
  case True
  with assms show ?thesis by (simp add: tab_step_def)
next
  case False
  show ?thesis
  proof (cases "prev_tab g")
    case None
    with assms(2) have tv: "tabview_ctx g = None" by simp
    from False None assms(1) tv show ?thesis
      by (cases "fset_ctx g"; cases "tab_ctx g")
         (auto simp: tab_step_def Let_def open_groups_def exit_ctx_def nesting_append
           split: sum.splits option.splits)
  next
    case (Some t)
    with False assms(1) show ?thesis
      by (cases "fset_ctx g"; cases "tab_ctx g"; cases "tabview_ctx g")
         (auto simp: tab_step_def Let_def open_groups_def exit_ctx_def nesting_append
           split: sum.splits option.splits)
  qed
qed

lemma fset_step_nesting:
  assumes "fset_step h k a g = (ev, Inr g')"
  shows "nesting (open_groups g @ S) ev = Some (open_groups g' @ S)
         \<and> prev_tab g' = prev_tab g \<and> tabview_ctx g' = tabview_ctx g"
  using assms
  by (cases "fset_ctx g")
     (auto simp: fset_step_def Let_def open_groups_def exit_ctx_def nesting_append
       split: if_splits option.splits)

lemma group_step_nesting:
  assumes "group_step h fti k a g n = (ev, n', Inr g')"
    and "prev_tab g = None \<longrightarrow> tabview_ctx g = None"
  shows "nesting (open_groups g @ S) ev = Some (open_groups g' @ S)
         \<and> (prev_tab g' = None \<longrightarrow> tabview_ctx g' = None)"
proof -
  obtain e1 n1 r1 where t: "tab_step h fti a g n = (e1, n1, r1)" by (metis prod_cases3)
  with assms(1) obtain g1 where r1: "r1 = Inr g1" by (cases r1) (auto simp: group_step_def)
  obtain e2 r2 where f: "fset_step h k a g1 = (e2, r2)" by force
  with assms(1) t r1 have ev: "ev = e1 @ e2" and r2: "r2 = Inr g'"
    by (auto simp: group_step_def)
  from tab_step_nesting [OF t [unfolded r1] assms(2), of S]
    fset_step_nesting [OF f [unfolded r2], of S]
  show ?thesis by (simp add: ev nesting_append)
qed

lemma writes_balancedD:
  "writes_balanced tp \<Longrightarrow> tp h c i name from_arr n = (ev, n', Done) \<Longrightarrow> nesting S ev = Some S"
  unfolding writes_balanced_def by (blast intro: balanced_frame)

lemma nesting_buttons: "nesting S (buttons key) = Some S"
  by (simp add: buttons_def)

lemma pull_items_nesting:
  assumes "writes_balanced tp"
    and "pull_items tp d h key c idx xs n = (ev, n', Finished u)"
  shows "nesting S ev = Some S"
  using assms(2)
proof (induction xs arbitrary: idx n ev)
  case Nil
  then show ?case by simp
next
  case (Cons x xs)
  obtain e1 n1 r1 where tp: "tp h c x (array_key key (int idx)) True n = (e1, n1, r1)"
    by (metis prod_cases3)
  with Cons.prems have r1: "r1 = Done"
    by (cases r1) (auto simp: Let_def split: prod.splits)
  obtain e2 n2 r2 where rest: "pull_items tp d h key c (Suc idx) xs n1 = (e2, n2, r2)"
    by (metis prod_cases3)
  with Cons.prems tp r1 have r2: "r2 = Finished u" and n2: "n2 = n'"
    and ev: "ev = [Enter ''div'' [(''class'', key)]] @ e1
         @ (if no_write (attrs c) then [] else buttons key)
         @ [Exit ''div'' [(''class'', key)]] @ e2"
    by (auto simp: Let_def item_div_def)
  have 1: "nesting ((''div'', [(''class'', key)]) # S) e1 = Some ((''div'', [(''class'', key)]) # S)"
    using writes_balancedD [OF assms(1) tp [unfolded r1]] .
  have 2: "nesting S e2 = Some S" using Cons.IH [OF rest [unfolded r2 n2]] .
  show ?case by (simp add: ev nesting_append 1 2 nesting_buttons)
qed

lemma pull_to_parent_balanced:
  assumes "writes_balanced tp" and "pull_to_parent tp d h c i name n = (ev, n', Done)"
  shows "balanced ev"
proof (cases "py_iter i")
  case (Inl e)
  with assms(2) show ?thesis by (simp add: pull_to_parent_def)
next
  case (Inr xs)
  obtain e0 n0 r0 where items: "pull_items tp d h (selsafe name) c 0 xs n = (e0, n0, r0)"
    by (metis prod_cases3)
  with assms(2) Inr obtain u where r0: "r0 = Finished u"
    and ev: "ev = e0 @ (if no_write (attrs c) then [] else gen_array_js (selsafe name))"
    by (cases r0) (auto simp: pull_to_parent_def pull_finish_def)
  from pull_items_nesting [OF assms(1) items [unfolded r0], of "[]"]
  show ?thesis by (simp add: balanced_def ev nesting_append gen_array_js_def)
qed

lemma array_to_parent_balanced:
  assumes "writes_balanced tp" and "array_to_parent tp d h c i name n = (ev, n', Done)"
  shows "balanced ev"
proof (cases "is_PushBase i")
  case True
  with assms(2) show ?thesis
    by (simp add: array_to_parent_def push_to_parent_def Let_def)
next
  case False
  obtain e0 n0 r0 where p: "pull_to_parent tp d h c i name n = (e0, n0, r0)"
    by (metis prod_cases3)
  with assms(2) False have r0: "r0 = Done"
    and ev: "ev = Enter ''div'' [(''id'', selsafe name @ ''_container''), (''class'', ''array'')]
                  # e0 @ [Exit ''div'' [(''id'', selsafe name @ ''_container''), (''class'', ''array'')]]"
    by (auto simp: array_to_parent_def Let_def)
  from pull_to_parent_balanced [OF assms(1) p [unfolded r0]]
  have "nesting [(''div'', [(''id'', selsafe name @ ''_container''), (''class'', ''array'')])] e0
        = Some [(''div'', [(''id'', selsafe name @ ''_container''), (''class'', ''array'')])]"
    by (rule balanced_frame)
  then show ?thesis by (simp add: balanced_def ev nesting_append)
qed

lemma complex_fields_nesting:
  assumes "writes_balanced tp"
    and "complex_fields tp d h c i name from_arr fs g n = (ev, n', Finished g')"
    and "prev_tab g = None \<longrightarrow> tabview_ctx g = None"
  shows "nesting (open_groups g @ S) ev = Some (open_groups g' @ S)"
  using assms(2,3)
proof (induction fs arbitrary: g n ev)
  case Nil
  then show ?case by simp
next
  case (Cons kv fs)
  show ?case
  proof (cases "exc (attrs (snd kv))")
    case True
    with Cons.prems(1) have "complex_fields tp d h c i name from_arr fs g n = (ev, n', Finished g')"
      by (simp add: Let_def)
    from Cons.IH [OF this Cons.prems(2)] show ?thesis .
  next
    case False
    obtain e1 n1 r1 where gs: "group_step h (get_flat_type_info h (get_type_name c)) (fst kv)
        (attrs (snd kv)) g n = (e1, n1, r1)" by (metis prod_cases3)
    with Cons.prems(1) False obtain g1 where r1: "r1 = Inr g1"
      by (cases r1) (auto simp: Let_def)
    obtain e2 n2 r2 where tp: "tp h (snd kv) (getattr i (fst kv)) (child_key h name (fst kv))
        from_arr n1 = (e2, n2, r2)" by (metis prod_cases3)
    with Cons.prems(1) False gs r1 have r2: "r2 = Done"
      by (cases r2) (auto simp: Let_def split: prod.splits)
    obtain e3 n3 r3 where rest: "complex_fields tp d h c i name from_arr fs g1 n2 = (e3, n3, r3)"
      by (metis prod_cases3)
    with Cons.prems(1) False gs r1 tp r2 have r3: "r3 = Finished g'" and n3: "n3 = n'"
      and ev: "ev = e1 @ e2 @ e3"
      by (auto simp: Let_def)
    from group_step_nesting [OF gs [unfolded r1] Cons.prems(2), of S]
    have 1: "nesting (open_groups g @ S) e1 = Some (open_groups g1 @ S)"
      and inv: "prev_tab g1 = None \<longrightarrow> tabview_ctx g1 = None" by auto
    have 2: "nesting (open_groups g1 @ S) e2 = Some (open_groups g1 @ S)"
      using writes_balancedD [OF assms(1) tp [unfolded r2]] .
    have 3: "nesting (open_groups g1 @ S) e3 = Some (open_groups g' @ S)"
      using Cons.IH [OF rest [unfolded r3 n3] inv] .
    show ?thesis by (simp add: ev nesting_append 1 2 3)
  qed
qed

lemma complex_model_to_parent_balanced:
  assumes "writes_balanced tp"
    and "complex_model_to_parent tp d h c i name from_arr n = (ev, n', Done)"
  shows "balanced ev"
proof (cases "sorted_py (interp h) form_key key_lt_defined (get_flat_type_info h (get_type_name c))")
  case (Inl e)
  with assms(2) show ?thesis by (simp add: complex_model_to_parent_def Let_def)
next
  case (Inr members)
  obtain e0 n0 r0 where loop: "complex_fields tp d h c i
      (if name = get_type_name c then [] else name) from_arr members init_grouping n = (e0, n0, r0)"
    by (metis prod_cases3)
  with assms(2) Inr obtain g where r0: "r0 = Finished g"
    and ev: "ev = [Enter ''fieldset'' [], Write (Elem ''legend'' [] (get_type_name c) [])]
                    @ e0 @ close_groups g @ [Exit ''fieldset'' []]"
    by (cases r0) (auto simp: complex_model_to_parent_def complex_finish_def Let_def)
  have "nesting (open_groups init_grouping @ [(''fieldset'', [])]) e0
          = Some (open_groups g @ [(''fieldset'', [])])"
    by (rule complex_fields_nesting [OF assms(1) loop [unfolded r0]])
       (simp add: init_grouping_def)
  then have "nesting [(''fieldset'', [])] e0 = Some (open_groups g @ [(''fieldset'', [])])"
    by (simp add: open_groups_def init_grouping_def)
  then show ?thesis
    by (simp add: balanced_def ev nesting_append nesting_close_groups)
qed

lemma primitive_balanced: "primitive_to_parent p h c i name = Inr ev \<Longrightarrow> balanced ev"
  using primitive_writes_wrapper [of p h c i name] by (auto simp: balanced_def)

lemma dispatch_balanced:
  assumes "writes_balanced tp"
  shows "writes_balanced (dispatch tp d)"
  unfolding writes_balanced_def
proof (intro allI impI)
  fix h c i name from_arr n ev n'
  assume a: "dispatch tp d h c i name from_arr n = (ev, n', Done)"
  show "balanced ev"
  proof (cases "\<not> from_arr \<and> max_occurs (attrs c) > 1")
    case True
    with a have "array_to_parent tp d h c i name n = (ev, n', Done)"
      by (simp add: dispatch_def)
    then show ?thesis by (rule array_to_parent_balanced [OF assms])
  next
    case False
    show ?thesis
    proof (cases "kind c")
      case (Primitive p)
      with a False show ?thesis
        by (auto simp: dispatch_def split: sum.splits intro: primitive_balanced)
    next
      case ComplexModel
      with a False have "complex_model_to_parent tp d h c i name from_arr n = (ev, n', Done)"
        by (simp add: dispatch_def)
      then show ?thesis by (rule complex_model_to_parent_balanced [OF assms])
    next
      case (Array v)
      with a False have "tp h v i name from_arr n = (ev, n', Done)"
        by (simp add: dispatch_def)
      with assms show ?thesis unfolding writes_balanced_def by blast
    qed
  qed
qed

lemma to_parent_writes_balanced: "writes_balanced (to_parent d)"
proof (induction d)
  case 0
  show ?case by (simp add: writes_balanced_def)
next
  case (Suc d)
  then show ?case by (simp add: dispatch_balanced)
qed

text \<open>
  A call of \<open>complex_model_to_parent\<close> that returns \<open>None\<close> has written a well nested log,
  whatever the annotations of the members: the outer \<open>fieldset\<close>, the tabview \<open>div\<close>, every
  tab \<open>div\<close> and every \<open>fieldset\<close> element was entered once and exited once, innermost
  first, and so have the renderers below it. A coroutine that was suspended never ends
  that way: see \<open>throw_raises_Break\<close> and \<open>send_not_Done\<close>.
\<close>

lemma finished_run_balanced:
  assumes "complex_model_to_parent (to_parent d) d h c i name from_arr n = (ev, n', Done)"
  shows "balanced ev"
  using assms by (rule complex_model_to_parent_balanced [OF to_parent_writes_balanced])

lemma throw_raises_Break: "snd (snd (throw h g n)) = Raise Break"
proof (induction h g n rule: throw.induct)
  case (1 h d f n)
  show ?case by simp
next
  case (2 h d f ret n)
  then show ?case by (cases "throw h ret n") (auto simp: Let_def)
next
  case (3 h d f ret n)
  then show ?case by (cases "throw h ret n") (auto simp: Let_def)
next
  case (4 h d f ret n)
  then show ?case by (cases "throw h ret n") auto
qed

lemma send_not_Done: "snd (snd (send h g v n)) \<noteq> Done"
proof (induction h g v n rule: send.induct)
  case (1 h d f sv n)
  show ?case
    by (cases "to_parent d h (push_cls f) sv (array_key (push_key f) (push_i f)) True n")
       (auto simp: Let_def split: outcome.splits)
next
  case (2 h d f ret sv2 n)
  then show ?case by (cases "send h ret sv2 n") (auto simp: Let_def split: outcome.splits)
next
  case (3 h d f ret sv2 n)
  then show ?case by (cases "send h ret sv2 n") (auto simp: Let_def split: outcome.splits)
next
  case (4 h d f ret y n)
  then show ?case by (cases "send h ret y n") (auto split: outcome.splits)
qed

lemma finished_run_balanced_example:
  "snd (snd (complex_model_to_parent (to_parent 1) 1 (example_host example_schema Python2)
               example_person PyNone ''Person'' False 0)) = Done
   \<and> balanced (fst (complex_model_to_parent (to_parent 1) 1 (example_host example_schema Python2)
               example_person PyNone ''Person'' False 0))"
proof -
  let ?r = "complex_model_to_parent (to_parent 1) 1 (example_host example_schema Python2)
               example_person PyNone ''Person'' False 0"
  have d: "snd (snd ?r) = Done" by code_simp
  then have "?r = (fst ?r, fst (snd ?r), Done)" by (metis prod.collapse)
  from finished_run_balanced [OF this] d show ?thesis by simp
qed

text \<open>
  C4 (the code differs). The tabview, tab and fieldset contexts are entered by hand and
  exited only after the loop over the members, with no \<open>try\<close> and \<open>finally\<close>, so a run that
  leaves the loop early leaves them open. In the model \<open>Box\<close> the member \<open>items\<close> repeats
  and lies in a tab. With a streamed value the coroutine is suspended inside the tab; the
  \<open>Break\<close> that ends the stream is not caught by \<open>_push_to_parent\<close> at its first \<open>yield\<close>,
  passes through the handler of \<open>complex_model_to_parent\<close> and ends the coroutine: the item
  \<open>div\<close> and the outer \<open>fieldset\<close> are exited, the \<open>div\<close> of \<open>tab0\<close> and the \<open>div\<close> of
  \<open>tabview0\<close> never. With a value that cannot be iterated, the error of the member leaves
  the same two contexts open.
\<close>

theorem grouping_contexts_left_open:
  "(case complex_model_to_parent (to_parent 2) 2 (example_host example_box_schema Python3)
           example_box (PyObj [(''items'', PyPush)]) ''Box'' False 0 of
      (ev, n, Susp g) \<Rightarrow>
        ev = [Enter ''fieldset'' [], Write (Elem ''legend'' [] ''Box'' []),
              Enter ''div'' [(''id'', ''tabview0'')],
              Write (Elem ''ul'' [] []
                       [Elem ''li'' [] [] [Elem ''a'' [(''href'', ''#tab0'')] ''Contact'' []]]),
              Enter ''div'' [(''id'', ''tab0'')],
              Enter ''div'' [(''id'', ''items_container''), (''class'', ''array'')],
              Enter ''div'' [(''class'', ''items'')],
              Exit ''div'' [(''id'', ''items_container''), (''class'', ''array'')]]
        \<and> throw (example_host example_box_schema Python3) g n
            = ([Exit ''div'' [(''class'', ''items'')], Exit ''fieldset'' []], 1, Raise Break)
    | _ \<Rightarrow> False)
   \<and> complex_model_to_parent (to_parent 2) 2 (example_host example_box_schema Python3)
        example_box (PyObj [(''items'', PyInt 5)]) ''Box'' False 0
      = ([Enter ''fieldset'' [], Write (Elem ''legend'' [] ''Box'' []),
          Enter ''div'' [(''id'', ''tabview0'')],
          Write (Elem ''ul'' [] []
                   [Elem ''li'' [] [] [Elem ''a'' [(''href'', ''#tab0'')] ''Contact'' []]]),
          Enter ''div'' [(''id'', ''tab0'')],
          Enter ''div'' [(''id'', ''items_container''), (''class'', ''array'')],
          Exit ''div'' [(''id'', ''items_container''), (''class'', ''array'')],
          Exit ''fieldset'' []],
         1, Raise TypeError_iter)"
  by code_simp

lemma sorted_py_orderable:
  "orderable h \<Longrightarrow>
   sorted_py (interp h) form_key key_lt_defined (get_flat_type_info h tn)
     = Inr (sort_key form_key (get_flat_type_info h tn))"
  by (auto simp: orderable_def sorted_py_def)

lemma in_concat_map: "t \<in> set (concat (map F xs)) \<Longrightarrow> \<exists>x\<in>set xs. t \<in> set (F x)"
  by (induction xs) auto

lemma tabs_of_member:
  assumes "t \<in> set (tabs_of fti)"
  shows "\<exists>kv\<in>set fti. tab (attrs (snd kv)) = Some t"
proof -
  let ?F = "\<lambda>(k, v). case tab (attrs v) of None \<Rightarrow> []
               | Some t \<Rightarrow> if exc (attrs v) then [] else [t]"
  from assms have "t \<in> set (concat (map ?F fti))" by (simp add: tabs_of_def)
  from in_concat_map [OF this] obtain kv where kv: "kv \<in> set fti" and t: "t \<in> set (?F kv)"
    by blast
  from t have "tab (attrs (snd kv)) = Some t"
    by (cases kv) (auto split: option.splits if_splits)
  with kv show ?thesis by blast
qed

lemma tab_keys_defined:
  assumes "key_lt_defined (form_key x) (form_key y)"
    and "tab (attrs (snd x)) = Some s" and "tab (attrs (snd y)) = Some t"
  shows "pair_lt_defined (tab_key s) (tab_key t)"
  using assms
  by (auto simp: key_lt_defined_def form_key_def Let_def group_lt_defined_def pair_lt_defined_def
      split: if_splits)

lemma gen_tab_headers_orderable:
  assumes "orderable h"
  shows "\<exists>hdrs. gen_tab_headers h (get_flat_type_info h tn) = Inr hdrs"
proof (cases "interp h = Python2")
  case True
  then show ?thesis by (simp add: gen_tab_headers_def sorted_py_def)
next
  case False
  let ?fti = "get_flat_type_info h tn"
  from False assms have all: "\<forall>x\<in>set ?fti. \<forall>y\<in>set ?fti. key_lt_defined (form_key x) (form_key y)"
    by (auto simp: orderable_def list_all_iff)
  have "\<forall>s\<in>set (tabs_of ?fti). \<forall>t\<in>set (tabs_of ?fti). pair_lt_defined (tab_key s) (tab_key t)"
  proof (intro ballI)
    fix s t assume "s \<in> set (tabs_of ?fti)" "t \<in> set (tabs_of ?fti)"
    then obtain x y where "x \<in> set ?fti" "tab (attrs (snd x)) = Some s"
      "y \<in> set ?fti" "tab (attrs (snd y)) = Some t"
      by (meson tabs_of_member)
    with all show "pair_lt_defined (tab_key s) (tab_key t)"
      by (blast intro: tab_keys_defined)
  qed
  then show ?thesis
    by (simp add: gen_tab_headers_def sorted_py_def list_all_iff)
qed

lemma tab_step_ok:
  assumes "gen_tab_headers h fti = Inr hdrs"
    and "prev_tab g \<noteq> None \<longrightarrow> tab a \<noteq> None"
  shows "\<exists>ev n' g'. tab_step h fti a g n = (ev, n', Inr g') \<and> prev_tab g' = tab a
           \<and> prev_fset g' = (if tab a = prev_tab g then prev_fset g else None)"
  using assms
  by (cases "tab a"; cases "prev_tab g") (auto simp: tab_step_def Let_def)

lemma fset_step_ok:
  assumes "prev_fset g \<noteq> None \<longrightarrow> fieldset a \<noteq> None"
  shows "\<exists>ev g'. fset_step h k a g = (ev, Inr g') \<and> prev_tab g' = prev_tab g
           \<and> prev_fset g' = fieldset a"
  using assms
  by (cases "fieldset a"; cases "prev_fset g") (auto simp: fset_step_def Let_def)

lemma group_step_ok:
  assumes "gen_tab_headers h fti = Inr hdrs"
    and "prev_tab g \<noteq> None \<longrightarrow> tab a \<noteq> None"
    and "prev_fset g \<noteq> None \<and> tab a = prev_tab g \<longrightarrow> fieldset a \<noteq> None"
  shows "\<exists>ev n' g'. group_step h fti k a g n = (ev, n', Inr g') \<and> prev_tab g' = tab a
           \<and> prev_fset g' = fieldset a"
proof -
  from tab_step_ok [OF assms(1,2), of n] obtain e1 n1 g1 where
    t: "tab_step h fti a g n = (e1, n1, Inr g1)" and pt: "prev_tab g1 = tab a"
    and pf: "prev_fset g1 = (if tab a = prev_tab g then prev_fset g else None)"
    by blast
  from pf assms(3) have "prev_fset g1 \<noteq> None \<longrightarrow> fieldset a \<noteq> None" by auto
  from fset_step_ok [OF this, of h k] obtain e2 g2 where
    "fset_step h k a g1 = (e2, Inr g2)" "prev_tab g2 = prev_tab g1" "prev_fset g2 = fieldset a"
    by blast
  with t pt show ?thesis by (simp add: group_step_def)
qed

lemma form_key_le_tab:
  assumes "form_key x \<le> form_key y" and "tab (attrs (snd x)) \<noteq> None"
  shows "tab (attrs (snd y)) \<noteq> None"
proof -
  from assms(1) have "map_option tab_key (tab (attrs (snd x))) \<le> map_option tab_key (tab (attrs (snd y)))"
    by (auto simp: form_key_def Let_def less_eq_prod_def)
  with assms(2) show ?thesis by (cases "tab (attrs (snd x))"; cases "tab (attrs (snd y))") auto
qed

lemma form_key_le_fieldset:
  assumes "form_key x \<le> form_key y" and "tab (attrs (snd y)) = tab (attrs (snd x))"
    and "fieldset (attrs (snd x)) \<noteq> None"
  shows "fieldset (attrs (snd y)) \<noteq> None"
proof -
  from assms(1,2) have "map_option (\<lambda>f. (fs_index f, fs_htmlid f)) (fieldset (attrs (snd x)))
      \<le> map_option (\<lambda>f. (fs_index f, fs_htmlid f)) (fieldset (attrs (snd y)))"
    by (auto simp: form_key_def Let_def less_eq_prod_def)
  with assms(3) show ?thesis
    by (cases "fieldset (attrs (snd x))"; cases "fieldset (attrs (snd y))") auto
qed

lemma sorted_tail_fit:
  assumes "sorted (map form_key (kv # fs))"
    and "prev_tab g = tab (attrs (snd kv))" and "prev_fset g = fieldset (attrs (snd kv))"
  shows "members_fit g fs"
proof -
  from assms(1) have le: "\<forall>x\<in>set fs. form_key kv \<le> form_key x" by auto
  show ?thesis
    unfolding members_fit_def assms(2,3)
    using le form_key_le_tab [of kv] form_key_le_fieldset [of kv]
    by blast
qed

lemma complex_fields_no_grouping_error:
  assumes "no_grouping_error tp h"
    and "gen_tab_headers h (get_flat_type_info h (get_type_name c)) = Inr hdrs"
    and "sorted (map form_key fs)" and "members_fit g fs"
    and "snd (snd (complex_fields tp d h c i name from_arr fs g n)) = Raised e"
  shows "\<not> grouping_error e"
  using assms(3-5)
proof (induction fs arbitrary: g n)
  case Nil
  then show ?case by simp
next
  case (Cons kv fs)
  let ?a = "attrs (snd kv)"
  from Cons.prems(1) have sorted_fs: "sorted (map form_key fs)" by simp
  show ?case
  proof (cases "exc ?a")
    case True
    from Cons.prems(2) have "members_fit g fs" by (simp add: members_fit_def)
    moreover from True Cons.prems(3)
    have "snd (snd (complex_fields tp d h c i name from_arr fs g n)) = Raised e"
      by (simp add: Let_def)
    ultimately show ?thesis using Cons.IH sorted_fs by blast
  next
    case False
    from Cons.prems(2) have c1: "prev_tab g \<noteq> None \<longrightarrow> tab ?a \<noteq> None"
      and c2: "prev_fset g \<noteq> None \<and> tab ?a = prev_tab g \<longrightarrow> fieldset ?a \<noteq> None"
      by (auto simp: members_fit_def)
    from group_step_ok [OF assms(2) c1 c2, of "fst kv" n] obtain e1 n1 g1 where
      gs: "group_step h (get_flat_type_info h (get_type_name c)) (fst kv) ?a g n = (e1, n1, Inr g1)"
      and pt: "prev_tab g1 = tab ?a" and pf: "prev_fset g1 = fieldset ?a"
      by blast
    have fit: "members_fit g1 fs" by (rule sorted_tail_fit [OF Cons.prems(1) pt pf])
    obtain e2 n2 r2 where tp: "tp h (snd kv) (getattr i (fst kv)) (child_key h name (fst kv))
        from_arr n1 = (e2, n2, r2)" by (metis prod_cases3)
    show ?thesis
    proof (cases r2)
      case Done
      with False gs tp Cons.prems(3)
      have "snd (snd (complex_fields tp d h c i name from_arr fs g1 n2)) = Raised e"
        by (simp add: Let_def split: prod.splits)
      with Cons.IH [OF sorted_fs fit] show ?thesis by blast
    next
      case (Susp gen)
      with False gs tp Cons.prems(3) show ?thesis by (simp add: Let_def)
    next
      case (Raise e')
      with False gs tp Cons.prems(3) have "e' = e" by (simp add: Let_def)
      with Raise tp assms(1) show ?thesis
        unfolding no_grouping_error_def by (metis snd_conv)
    qed
  qed
qed

lemma complex_model_no_grouping_error:
  assumes "no_grouping_error tp h" and "orderable h"
    and "snd (snd (complex_model_to_parent tp d h c i name from_arr n)) = Raise e"
  shows "\<not> grouping_error e"
proof -
  let ?fti = "get_flat_type_info h (get_type_name c)"
  let ?name = "if name = get_type_name c then [] else name"
  from gen_tab_headers_orderable [OF assms(2)] obtain hdrs where
    hd: "gen_tab_headers h ?fti = Inr hdrs" by blast
  have fit: "members_fit init_grouping (sort_key form_key ?fti)"
    by (simp add: members_fit_def init_grouping_def)
  obtain e0 n0 r0 where loop: "complex_fields tp d h c i ?name from_arr (sort_key form_key ?fti)
      init_grouping n = (e0, n0, r0)" by (metis prod_cases3)
  with assms(3) sorted_py_orderable [OF assms(2), of "get_type_name c"]
  have "r0 = Raised e"
    by (cases r0) (auto simp: complex_model_to_parent_def complex_finish_def Let_def)
  with loop have "snd (snd (complex_fields tp d h c i ?name from_arr (sort_key form_key ?fti)
      init_grouping n)) = Raised e" by simp
  from complex_fields_no_grouping_error [OF assms(1) hd _ fit this]
  show ?thesis by simp
qed

lemma pull_items_no_grouping_error:
  assumes "no_grouping_error tp h"
    and "snd (snd (pull_items tp d h key c idx xs n)) = Raised e"
  shows "\<not> grouping_error e"
  using assms(2)
proof (induction xs arbitrary: idx n)
  case Nil
  then show ?case by simp
next
  case (Cons x xs)
  obtain e1 n1 r1 where tp: "tp h c x (array_key key (int idx)) True n = (e1, n1, r1)"
    by (metis prod_cases3)
  show ?case
  proof (cases r1)
    case Done
    with tp Cons.prems have "snd (snd (pull_items tp d h key c (Suc idx) xs n1)) = Raised e"
      by (simp add: Let_def split: prod.splits)
    with Cons.IH show ?thesis by blast
  next
    case (Susp gen)
    with tp Cons.prems show ?thesis by (simp add: Let_def)
  next
    case (Raise e')
    with tp Cons.prems have "e' = e" by (simp add: Let_def)
    with Raise tp assms(1) show ?thesis
      unfolding no_grouping_error_def by (metis snd_conv)
  qed
qed

lemma pull_to_parent_no_grouping_error:
  assumes "no_grouping_error tp h"
    and "snd (snd (pull_to_parent tp d h c i name n)) = Raise e"
  shows "\<not> grouping_error e"
proof (cases "py_iter i")
  case (Inl e')
  with assms(2) have "e = e'" by (simp add: pull_to_parent_def)
  moreover from Inl have "e' = TypeError_iter" by (cases i) auto
  ultimately show ?thesis by (simp add: grouping_error_def)
next
  case (Inr xs)
  obtain e0 n0 r0 where items: "pull_items tp d h (selsafe name) c 0 xs n = (e0, n0, r0)"
    by (metis prod_cases3)
  with assms(2) Inr have "r0 = Raised e"
    by (cases r0) (auto simp: pull_to_parent_def pull_finish_def)
  with items have "snd (snd (pull_items tp d h (selsafe name) c 0 xs n)) = Raised e" by simp
  from pull_items_no_grouping_error [OF assms(1) this] show ?thesis .
qed

lemma array_to_parent_no_grouping_error:
  assumes "no_grouping_error tp h"
    and "snd (snd (array_to_parent tp d h c i name n)) = Raise e"
  shows "\<not> grouping_error e"
proof (cases "is_PushBase i")
  case True
  with assms(2) show ?thesis by (simp add: array_to_parent_def push_to_parent_def Let_def)
next
  case False
  with assms(2) have "snd (snd (pull_to_parent tp d h c i name n)) = Raise e"
    by (simp add: array_to_parent_def Let_def split: prod.splits)
  from pull_to_parent_no_grouping_error [OF assms(1) this] show ?thesis .
qed

lemma dispatch_no_grouping_error:
  assumes "no_grouping_error tp h" and "orderable h"
  shows "no_grouping_error (dispatch tp d) h"
  unfolding no_grouping_error_def
proof (intro allI impI)
  fix c i name from_arr n e
  assume a: "snd (snd (dispatch tp d h c i name from_arr n)) = Raise e"
  show "\<not> grouping_error e"
  proof (cases "\<not> from_arr \<and> max_occurs (attrs c) > 1")
    case True
    with a have "snd (snd (array_to_parent tp d h c i name n)) = Raise e"
      by (simp add: dispatch_def)
    then show ?thesis by (rule array_to_parent_no_grouping_error [OF assms(1)])
  next
    case False
    show ?thesis
    proof (cases "kind c")
      case (Primitive p)
      with a False primitive_writes_wrapper [of p h c i name] show ?thesis
        by (auto simp: dispatch_def)
    next
      case ComplexModel
      with a False have "snd (snd (complex_model_to_parent tp d h c i name from_arr n)) = Raise e"
        by (simp add: dispatch_def)
      then show ?thesis by (rule complex_model_no_grouping_error [OF assms])
    next
      case (Array v)
      with a False have "snd (snd (tp h v i name from_arr n)) = Raise e"
        by (simp add: dispatch_def)
      with assms(1) show ?thesis unfolding no_grouping_error_def by blast
    qed
  qed
qed

lemma to_parent_no_grouping_error: "orderable h \<Longrightarrow> no_grouping_error (to_parent d) h"
proof (induction d)
  case 0
  show ?case by (simp add: no_grouping_error_def grouping_error_def)
next
  case (Suc d)
  then show ?case by (simp add: dispatch_no_grouping_error)
qed

text \<open>
  On Python 2, and on Python 3 when the keys of the members of every model can be
  compared with each other, \<open>complex_model_to_parent\<close> and the renderers below it raise
  neither the \<open>TypeError\<close> of the sort nor the \<open>AttributeError\<close> of a tab or fieldset
  transition, whatever the tab and fieldset annotations: sorted, the members without a tab
  come first and, within one tab, the members without a fieldset come first, and a change
  of tab resets the fieldset.
\<close>

lemma no_grouping_error_when_orderable:
  assumes "orderable h"
  shows "snd (snd (complex_model_to_parent (to_parent d) d h c i name from_arr n))
           \<noteq> Raise AttributeError
         \<and> snd (snd (complex_model_to_parent (to_parent d) d h c i name from_arr n))
           \<noteq> Raise TypeError_order"
  using complex_model_no_grouping_error [OF to_parent_no_grouping_error [OF assms] assms,
      of d d c i name from_arr n]
  by (auto simp: grouping_error_def)

lemma no_grouping_error_when_orderable_example:
  "orderable (example_host example_schema Python2)
   \<and> snd (snd (complex_model_to_parent (to_parent 1) 1 (example_host example_schema Python2)
                 example_person PyNone ''Person'' False 0)) \<noteq> Raise AttributeError
   \<and> snd (snd (complex_model_to_parent (to_parent 1) 1 (example_host example_schema Python2)
                 example_person PyNone ''Person'' False 0)) \<noteq> Raise TypeError_order"
proof -
  have o: "orderable (example_host example_schema Python2)"
    by (simp add: orderable_def example_host_def)
  from no_grouping_error_when_orderable [OF o] o show ?thesis by blast
qed

text \<open>
  C1 (the code differs). \<open>_Tform_key\<close> gives \<open>None\<close> for a member without a tab and a
  tuple for a member with one, and the loop handles the step from no tab to a tab. For the
  model \<open>Person\<close>, which mixes members with a tab and members without one, \<open>sorted\<close>
  compares \<open>None\<close> with a tuple. On Python 3 that raises \<open>TypeError\<close>:
  \<open>complex_model_to_parent\<close> ends with it before it renders a member.
\<close>

theorem mixed_members_not_orderable:
  "complex_model_to_parent (to_parent 1) 1 (example_host example_schema Python3)
     example_person PyNone ''Person'' False 0
   = ([Enter ''fieldset'' [], Write (Elem ''legend'' [] ''Person'' []), Exit ''fieldset'' []],
      0, Raise TypeError_order)"
  by code_simp



































end
